theory Spec2Isabelle
  imports Complex_Main "HOL-Library.Word"
begin

unbundle bit_operations_syntax

section \<open>Common data\<close>

text \<open>
  The exceptions the modelled code can raise. A function that can raise returns
  \<open>py_error + 'a\<close>, with \<open>Inl\<close> for the exception.
\<close>

datatype py_error = ValueError | IndexError | KeyError | StructError | SerialException

text \<open>
  Lane names are the Python strings the scripts use as dictionary keys. A count
  dictionary is a map from lane name to a Python integer.
\<close>

type_synonym lane = string
type_synonym lane_counts = "lane \<rightharpoonup> int"
type_synonym byte = "8 word"

text \<open>\<^verbatim>\<open>{lane: 0 for lane in lanes}\<close>: every listed lane is a key, with value 0.\<close>

definition zero_counts :: "lane list \<Rightarrow> lane_counts" where
  "zero_counts lanes = (\<lambda>lane. if lane \<in> set lanes then Some 0 else None)"

text \<open>\<^verbatim>\<open>d.get(key, 0)\<close>\<close>

definition get_or_zero :: "lane_counts \<Rightarrow> lane \<Rightarrow> int" where
  "get_or_zero d k = (case d k of None \<Rightarrow> 0 | Some v \<Rightarrow> v)"

text \<open>
  \<^verbatim>\<open>counts[key] += 1\<close> raises \<^verbatim>\<open>KeyError\<close> when the key is missing.
\<close>

definition incr :: "lane_counts \<Rightarrow> lane \<Rightarrow> py_error + lane_counts" where
  "incr counts k = (case counts k of None \<Rightarrow> Inl KeyError | Some v \<Rightarrow> Inr (counts(k \<mapsto> v + 1)))"

section \<open>traffic\_masking.py: the checksummed sender\<close>

text \<open>
  \<^verbatim>\<open>struct.pack('<4H', north, south, east, west)\<close>: four unsigned shorts, little-endian,
  two bytes each, low byte first. The library raises \<^verbatim>\<open>struct.error\<close> when an argument is
  outside \<open>0 .. 65535\<close>.
\<close>

definition pack_H :: "int \<Rightarrow> py_error + byte list" where
  "pack_H n =
     (if 0 \<le> n \<and> n \<le> 65535
      then Inr [word_of_int (n mod 256), word_of_int (n div 256)]
      else Inl StructError)"

definition struct_pack_4H :: "int \<Rightarrow> int \<Rightarrow> int \<Rightarrow> int \<Rightarrow> py_error + byte list" where
  "struct_pack_4H a b c d =
     (case (pack_H a, pack_H b, pack_H c, pack_H d) of
        (Inr ba, Inr bb, Inr bc, Inr bd) \<Rightarrow> Inr (ba @ bb @ bc @ bd)
      | _ \<Rightarrow> Inl StructError)"

text \<open>
  \<^verbatim>\<open>checksum = start_byte; for byte in data: checksum ^= byte\<close>
\<close>

definition start_byte :: byte where
  "start_byte = 0xAA"

fun xor_bytes :: "byte \<Rightarrow> byte list \<Rightarrow> byte" where
  "xor_bytes checksum [] = checksum"
| "xor_bytes checksum (b # data) = xor_bytes (checksum XOR b) data"

text \<open>
  The part of \<^verbatim>\<open>send_serial_data\<close> before the port is opened: read the four counts,
  pack them, compute the checksum, build the packet.
\<close>

definition build_packet :: "lane_counts \<Rightarrow> py_error + byte list" where
  "build_packet lane_counts =
     (let north = get_or_zero lane_counts ''North'';
          south = get_or_zero lane_counts ''South'';
          east = get_or_zero lane_counts ''East'';
          west = get_or_zero lane_counts ''West''
      in case struct_pack_4H north south east west of
           Inl e \<Rightarrow> Inl e
         | Inr data \<Rightarrow> Inr ([start_byte] @ data @ [xor_bytes start_byte data]))"

text \<open>
  The serial port is outside the program: whether \<^verbatim>\<open>serial.Serial(...)\<close> opens and
  whether \<^verbatim>\<open>ser.write\<close> succeeds are inputs of the model. What the sender does to the
  outside world is a trace of events.
\<close>

record serial_port =
  can_open :: bool
  can_write :: bool

datatype io_event =
    Opened
  | Wrote "byte list"
  | Closed
  | Print_sent "byte list"
  | Print_error py_error

text \<open>
  The body of the \<^verbatim>\<open>try\<close> block. The \<^verbatim>\<open>with\<close> statement closes the port when the write
  raises, then the exception goes on.
\<close>

definition send_body :: "serial_port \<Rightarrow> lane_counts \<Rightarrow> (py_error + unit) \<times> io_event list" where
  "send_body port lane_counts =
     (case build_packet lane_counts of
        Inl e \<Rightarrow> (Inl e, [])
      | Inr packet \<Rightarrow>
          if \<not> can_open port then (Inl SerialException, [])
          else if \<not> can_write port then (Inl SerialException, [Opened, Closed])
          else (Inr (), [Opened, Wrote packet, Print_sent packet, Closed]))"

text \<open>
  \<^verbatim>\<open>send_serial_data\<close>: the \<^verbatim>\<open>except Exception\<close> clause prints the error and the
  function returns \<^verbatim>\<open>None\<close> on both paths.
\<close>

definition send_serial_data :: "serial_port \<Rightarrow> lane_counts \<Rightarrow> (py_error + unit) \<times> io_event list" where
  "send_serial_data port lane_counts =
     (case send_body port lane_counts of
        (Inr u, events) \<Rightarrow> (Inr (), events)
      | (Inl e, events) \<Rightarrow> (Inr (), events @ [Print_error e]))"

text \<open>The packets a trace wrote to the port.\<close>

fun written :: "io_event list \<Rightarrow> byte list list" where
  "written [] = []"
| "written (Wrote p # es) = p # written es"
| "written (_ # es) = written es"

section \<open>traffic\_markers.py: lane polygons from fiducial markers\<close>

type_synonym point = "int \<times> int"
type_synonym polygon = "point list"

text \<open>
  The corners of one detected marker (\<^verbatim>\<open>corners[i][0]\<close>, an array of corner points with
  floating-point coordinates; real numbers here).
\<close>

type_synonym marker_corners = "(real \<times> real) list"

text \<open>The constructor's \<^verbatim>\<open>self.lane_markers\<close>, in the dictionary's order.\<close>

definition lane_markers :: "(lane \<times> int list) list" where
  "lane_markers =
     [(''North'', [0, 1, 2, 3]),
      (''South'', [4, 5, 6, 7]),
      (''East'', [8, 9, 10, 11]),
      (''West'', [12, 13, 14, 15])]"

text \<open>
  \<^verbatim>\<open>detect_markers\<close>. The marker detector is a library call: \<open>detectMarkers\<close> is what it
  returns on the image, the corners of each marker and the identifiers, or \<^verbatim>\<open>None\<close> for
  the identifiers when it found no marker.
\<close>

definition detect_markers ::
  "('image \<Rightarrow> marker_corners list \<times> int list option) \<Rightarrow> 'image
     \<Rightarrow> py_error + marker_corners list \<times> int list" where
  "detect_markers detectMarkers img =
     (case detectMarkers img of
        (corners, None) \<Rightarrow> Inl ValueError
      | (corners, Some ids) \<Rightarrow> Inr (corners, ids))"

text \<open>
  \<^verbatim>\<open>idx = np.where(ids == marker_id)[0]\<close>: the positions in \<open>ids\<close> that hold the
  identifier, in increasing order.
\<close>

definition np_where :: "int list \<Rightarrow> int \<Rightarrow> nat list" where
  "np_where ids marker_id = filter (\<lambda>i. ids ! i = marker_id) [0 ..< length ids]"

text \<open>\<^verbatim>\<open>np.mean(marker_corners, axis=0)\<close>\<close>

definition np_mean :: "marker_corners \<Rightarrow> real \<times> real" where
  "np_mean marker_corners =
     (sum_list (map fst marker_corners) / real (length marker_corners),
      sum_list (map snd marker_corners) / real (length marker_corners))"

text \<open>The loop over one lane's marker identifiers, collecting the centres found.\<close>

fun lane_corners_of ::
  "marker_corners list \<Rightarrow> int list \<Rightarrow> int list \<Rightarrow> py_error + (real \<times> real) list" where
  "lane_corners_of corners ids [] = Inr []"
| "lane_corners_of corners ids (marker_id # marker_ids) =
     (case np_where ids marker_id of
        [] \<Rightarrow> lane_corners_of corners ids marker_ids
      | i # _ \<Rightarrow>
          if i < length corners
          then (case lane_corners_of corners ids marker_ids of
                  Inl e \<Rightarrow> Inl e
                | Inr cs \<Rightarrow> Inr (np_mean (corners ! i) # cs))
          else Inl IndexError)"

text \<open>
  \<^verbatim>\<open>np.array(lane_corners, np.int32)\<close>: each coordinate is truncated towards zero.
\<close>

definition to_int32 :: "real \<Rightarrow> int" where
  "to_int32 x = (if x < 0 then \<lceil>x\<rceil> else \<lfloor>x\<rfloor>)"

definition as_polygon :: "(real \<times> real) list \<Rightarrow> polygon" where
  "as_polygon lane_corners = map (\<lambda>(x, y). (to_int32 x, to_int32 y)) lane_corners"

text \<open>
  The outer loop of \<^verbatim>\<open>create_lane_polygons\<close>. The resulting dictionary is kept as a list
  of (lane, polygon) pairs in insertion order, the order \<^verbatim>\<open>count_cars\<close> iterates it in.
\<close>

fun lane_polygons_of ::
  "marker_corners list \<Rightarrow> int list \<Rightarrow> (lane \<times> int list) list
     \<Rightarrow> py_error + (lane \<times> polygon) list" where
  "lane_polygons_of corners ids [] = Inr []"
| "lane_polygons_of corners ids ((lane_name, marker_ids) # rest) =
     (case lane_corners_of corners ids marker_ids of
        Inl e \<Rightarrow> Inl e
      | Inr lane_corners \<Rightarrow>
          (case lane_polygons_of corners ids rest of
             Inl e \<Rightarrow> Inl e
           | Inr lane_polygons \<Rightarrow>
               if length lane_corners \<ge> 3
               then Inr ((lane_name, as_polygon lane_corners) # lane_polygons)
               else Inr lane_polygons))"

definition create_lane_polygons ::
  "marker_corners list \<Rightarrow> int list \<Rightarrow> py_error + (lane \<times> polygon) list" where
  "create_lane_polygons corners ids = lane_polygons_of corners ids lane_markers"

text \<open>
  The containment test \<^verbatim>\<open>cv2.pointPolygonTest(polygon, point, False)\<close> is a library call
  and a parameter \<open>ppt\<close> of the counting functions: it returns \<open>1\<close> inside, \<open>0\<close> on an
  edge and \<open>-1\<close> outside. Car centres are pairs of Python integers, so is the point.
\<close>

type_synonym point_test = "polygon \<Rightarrow> point \<Rightarrow> int"

text \<open>The inner loop of \<^verbatim>\<open>count_cars\<close>: one centre against every lane polygon.\<close>

fun count_center ::
  "point_test \<Rightarrow> point \<Rightarrow> (lane \<times> polygon) list \<Rightarrow> lane_counts \<Rightarrow> py_error + lane_counts" where
  "count_center ppt center [] lane_counts = Inr lane_counts"
| "count_center ppt center ((lane, polygon) # lane_polygons) lane_counts =
     (if ppt polygon center \<ge> 0
      then case incr lane_counts lane of
             Inl e \<Rightarrow> Inl e
           | Inr lane_counts' \<Rightarrow> count_center ppt center lane_polygons lane_counts'
      else count_center ppt center lane_polygons lane_counts)"

text \<open>The outer loop over the centres.\<close>

fun count_centers ::
  "point_test \<Rightarrow> (lane \<times> polygon) list \<Rightarrow> lane_counts \<Rightarrow> point list \<Rightarrow> py_error + lane_counts" where
  "count_centers ppt lane_polygons lane_counts [] = Inr lane_counts"
| "count_centers ppt lane_polygons lane_counts (center # centers) =
     (case count_center ppt center lane_polygons lane_counts of
        Inl e \<Rightarrow> Inl e
      | Inr lane_counts' \<Rightarrow> count_centers ppt lane_polygons lane_counts' centers)"

text \<open>\<^verbatim>\<open>LaneAnalyzer.count_cars\<close> of traffic\_markers.py.\<close>

definition markers_count_cars ::
  "point_test \<Rightarrow> ('image \<Rightarrow> marker_corners list \<times> int list option) \<Rightarrow> point list \<Rightarrow> 'image
     \<Rightarrow> py_error + lane_counts \<times> (lane \<times> polygon) list" where
  "markers_count_cars ppt detectMarkers centers img =
     (case detect_markers detectMarkers img of
        Inl e \<Rightarrow> Inl e
      | Inr (corners, ids) \<Rightarrow>
          (case create_lane_polygons corners ids of
             Inl e \<Rightarrow> Inl e
           | Inr lane_polygons \<Rightarrow>
               (case count_centers ppt lane_polygons (zero_counts (map fst lane_markers)) centers of
                  Inl e \<Rightarrow> Inl e
                | Inr lane_counts \<Rightarrow> Inr (lane_counts, lane_polygons))))"

text \<open>
  The centres \<^verbatim>\<open>run\<close> of traffic\_markers.py computes from the kept boxes
  \<^verbatim>\<open>[x, y, w, h]\<close>: \<^verbatim>\<open>(x + w_box//2, y + h_box//2)\<close>.
\<close>

definition markers_centers :: "(int \<times> int \<times> int \<times> int) list \<Rightarrow> point list" where
  "markers_centers boxes = map (\<lambda>(x, y, w_box, h_box). (x + w_box div 2, y + h_box div 2)) boxes"

text \<open>
  A model of the library's containment test for a contour and a point with integer
  coordinates: it counts the edges a ray from the point crosses and returns \<open>0\<close> as soon
  as the point is found on an edge. It is used as a concrete \<open>ppt\<close> in examples only.
\<close>

fun ppt_edges :: "point \<Rightarrow> point \<Rightarrow> point list \<Rightarrow> nat \<Rightarrow> int" where
  "ppt_edges ip v0 [] counter = (if even counter then - 1 else 1)"
| "ppt_edges (px, py) (v0x, v0y) ((vx, vy) # rest) counter =
     (if (v0y \<le> py \<and> vy \<le> py) \<or> (v0y > py \<and> vy > py) \<or> (v0x < px \<and> vx < px)
      then (if py = vy \<and> (px = vx \<or> (py = v0y \<and>
                 ((v0x \<le> px \<and> px \<le> vx) \<or> (vx \<le> px \<and> px \<le> v0x))))
            then 0
            else ppt_edges (px, py) (vx, vy) rest counter)
      else (let dist = (py - v0y) * (vx - v0x) - (px - v0x) * (vy - v0y)
            in if dist = 0 then 0
               else ppt_edges (px, py) (vx, vy) rest
                      (if (if vy < v0y then - dist else dist) > 0 then counter + 1 else counter)))"

definition pointPolygonTest :: point_test where
  "pointPolygonTest polygon pt =
     (if polygon = [] then - 1 else ppt_edges pt (last polygon) polygon 0)"

section \<open>traffic\_masking.py: lane lookup in a colour mask\<close>

text \<open>
  A pixel or reference colour is three integers (the mask holds values \<open>0 .. 255\<close>). The
  mask is an image of \<open>mask_height\<close> rows and \<open>mask_width\<close> columns; \<open>mask_pixel m row col\<close> is its
  content inside these bounds.
\<close>

type_synonym color = "int \<times> int \<times> int"

record mask =
  mask_height :: nat
  mask_width :: nat
  mask_pixel :: "nat \<Rightarrow> nat \<Rightarrow> color"

text \<open>\<^verbatim>\<open>np.clip(a, lo, hi)\<close> is \<^verbatim>\<open>minimum(maximum(a, lo), hi)\<close>.\<close>

definition np_clip :: "int \<Rightarrow> int \<Rightarrow> int \<Rightarrow> int" where
  "np_clip a lo hi = min (max a lo) hi"

text \<open>
  \<^verbatim>\<open>self.mask[cy, cx]\<close>: a negative index counts from the end, an index outside
  \<open>-n .. n-1\<close> raises \<^verbatim>\<open>IndexError\<close>.
\<close>

definition py_index :: "nat \<Rightarrow> int \<Rightarrow> py_error + nat" where
  "py_index n i =
     (if 0 \<le> i \<and> i < int n then Inr (nat i)
      else if - int n \<le> i \<and> i < 0 then Inr (nat (int n + i))
      else Inl IndexError)"

definition mask_at :: "mask \<Rightarrow> int \<Rightarrow> int \<Rightarrow> py_error + color" where
  "mask_at m cy cx =
     (case py_index (mask_height m) cy of
        Inl e \<Rightarrow> Inl e
      | Inr row \<Rightarrow>
          (case py_index (mask_width m) cx of
             Inl e \<Rightarrow> Inl e
           | Inr col \<Rightarrow> Inr (mask_pixel m row col)))"

text \<open>
  \<^verbatim>\<open>np.linalg.norm(mask_color - color)\<close>: the difference is taken in 64-bit integers
  (the reference colour is a tuple of Python integers), so it does not wrap.
\<close>

definition color_dist :: "color \<Rightarrow> color \<Rightarrow> real" where
  "color_dist mask_color color =
     (case (mask_color, color) of
        ((b, g, r), (b', g', r')) \<Rightarrow>
          sqrt (real_of_int ((b - b')\<^sup>2 + (g - g')\<^sup>2 + (r - r')\<^sup>2)))"

text \<open>
  The loop over \<^verbatim>\<open>self.lane_colors.items()\<close>, with the state \<^verbatim>\<open>(best_match, min_dist)\<close>.
  \<^verbatim>\<open>min_dist = float('inf')\<close> is \<open>None\<close>.
\<close>

fun match_lanes ::
  "color \<Rightarrow> int \<Rightarrow> (lane \<times> color) list \<Rightarrow> lane option \<Rightarrow> real option \<Rightarrow> lane option" where
  "match_lanes mask_color tolerance [] best_match min_dist = best_match"
| "match_lanes mask_color tolerance ((lane, color) # lane_colors) best_match min_dist =
     (let dist = color_dist mask_color color
      in if (case min_dist of None \<Rightarrow> True | Some m \<Rightarrow> dist < m) \<and> dist \<le> real_of_int tolerance
         then match_lanes mask_color tolerance lane_colors (Some lane) (Some dist)
         else match_lanes mask_color tolerance lane_colors best_match min_dist)"

text \<open>\<^verbatim>\<open>if best_match:\<close> holds for a lane name that is neither \<^verbatim>\<open>None\<close> nor empty.\<close>

definition truthy :: "lane option \<Rightarrow> bool" where
  "truthy best_match = (case best_match of None \<Rightarrow> False | Some l \<Rightarrow> l \<noteq> [])"

text \<open>\<^verbatim>\<open>LaneAnalyzer.count_cars\<close> of traffic\_masking.py: the loop over the centres.\<close>

fun masking_count_loop ::
  "mask \<Rightarrow> (lane \<times> color) list \<Rightarrow> int \<Rightarrow> lane_counts \<Rightarrow> point list \<Rightarrow> py_error + lane_counts" where
  "masking_count_loop m lane_colors tolerance lane_counts [] = Inr lane_counts"
| "masking_count_loop m lane_colors tolerance lane_counts ((cx, cy) # centers) =
     (let cx = np_clip cx 0 (int (mask_width m) - 1);
          cy = np_clip cy 0 (int (mask_height m) - 1)
      in case mask_at m cy cx of
           Inl e \<Rightarrow> Inl e
         | Inr mask_color \<Rightarrow>
             (let best_match = match_lanes mask_color tolerance lane_colors None None
              in if truthy best_match
                 then (case incr lane_counts (the best_match) of
                         Inl e \<Rightarrow> Inl e
                       | Inr lane_counts' \<Rightarrow>
                           masking_count_loop m lane_colors tolerance lane_counts' centers)
                 else masking_count_loop m lane_colors tolerance lane_counts centers))"

definition masking_count_cars ::
  "mask \<Rightarrow> (lane \<times> color) list \<Rightarrow> int \<Rightarrow> point list \<Rightarrow> py_error + lane_counts" where
  "masking_count_cars m lane_colors tolerance centers =
     masking_count_loop m lane_colors tolerance (zero_counts (map fst lane_colors)) centers"

text \<open>The application's \<^verbatim>\<open>self.lane_colors\<close> and the default tolerance.\<close>

definition app_lane_colors :: "(lane \<times> color) list" where
  "app_lane_colors =
     [(''North'', (255, 0, 0)),
      (''South'', (0, 255, 0)),
      (''East'', (0, 0, 255)),
      (''West'', (255, 255, 0))]"

definition default_tolerance :: int where
  "default_tolerance = 20"

text \<open>
  The centres \<^verbatim>\<open>run\<close> of traffic\_masking.py computes from the kept boxes, for an image
  of width \<open>w\<close> and height \<open>h\<close>.
\<close>

definition masking_centers :: "int \<Rightarrow> int \<Rightarrow> (int \<times> int \<times> int \<times> int) list \<Rightarrow> point list" where
  "masking_centers w h boxes =
     map (\<lambda>(x, y, w_box, h_box).
            (np_clip (x + w_box div 2) 0 (w - 1), np_clip (y + h_box div 2) 0 (h - 1))) boxes"

section \<open>traffic\_processor.py: fixed quadrants and the text sender\<close>

text \<open>
  A box is \<^verbatim>\<open>(x1, y1, x2, y2)\<close> as the detector returns it, in frame coordinates. The
  coordinates are floating-point numbers in the source; they are real numbers here.
\<close>

type_synonym box = "real \<times> real \<times> real \<times> real"

text \<open>
  The branch of \<^verbatim>\<open>process_frame\<close> that picks the key:
  \<^verbatim>\<open>if x_center < 320: 'W' if y_center < 240 else 'N'  else: 'E' if y_center < 240 else 'S'\<close>
\<close>

definition quadrant :: "real \<Rightarrow> real \<Rightarrow> lane" where
  "quadrant x_center y_center =
     (if x_center < 320
      then (if y_center < 240 then ''W'' else ''N'')
      else (if y_center < 240 then ''E'' else ''S''))"

fun count_boxes :: "lane_counts \<Rightarrow> box list \<Rightarrow> py_error + lane_counts" where
  "count_boxes counts [] = Inr counts"
| "count_boxes counts ((x1, y1, x2, y2) # boxes) =
     (let x_center = (x1 + x2) / 2;
          y_center = (y1 + y2) / 2
      in case incr counts (quadrant x_center y_center) of
           Inl e \<Rightarrow> Inl e
         | Inr counts' \<Rightarrow> count_boxes counts' boxes)"

text \<open>
  \<^verbatim>\<open>process_frame\<close>: the camera read gives no frame (\<open>None\<close>, the function returns
  \<^verbatim>\<open>None\<close>) or a frame, of which only the detector's boxes matter.
\<close>

definition process_frame :: "box list option \<Rightarrow> py_error + lane_counts option" where
  "process_frame read =
     (case read of
        None \<Rightarrow> Inr None
      | Some boxes \<Rightarrow>
          (case count_boxes [''N'' \<mapsto> 0, ''S'' \<mapsto> 0, ''E'' \<mapsto> 0, ''W'' \<mapsto> 0] boxes of
             Inl e \<Rightarrow> Inl e
           | Inr counts \<Rightarrow> Inr (Some counts)))"

text \<open>Python's \<^verbatim>\<open>str\<close> of an integer, as used by the f-string.\<close>

definition digit_char :: "nat \<Rightarrow> char" where
  "digit_char d = char_of (48 + d)"

function str_nat :: "nat \<Rightarrow> string" where
  "str_nat n = (if n < 10 then [digit_char n] else str_nat (n div 10) @ [digit_char (n mod 10)])"
  by pat_completeness auto
termination
  by (relation "measure id") auto

declare str_nat.simps [simp del]

definition str_int :: "int \<Rightarrow> string" where
  "str_int i = (if i < 0 then CHR ''-'' # str_nat (nat (- i)) else str_nat (nat i))"

text \<open>\<^verbatim>\<open>payload.encode('utf-8')\<close> of an ASCII string: one byte per character.\<close>

definition encode_utf8 :: "string \<Rightarrow> byte list" where
  "encode_utf8 payload = map of_char payload"

text \<open>
  \<^verbatim>\<open>send_counts\<close>: no \<^verbatim>\<open>try\<close>; a missing key or a failed write raises to the caller.
  The port was opened by the constructor, so only the write can fail here.
\<close>

definition send_counts :: "serial_port \<Rightarrow> lane_counts \<Rightarrow> (py_error + unit) \<times> io_event list" where
  "send_counts ser counts =
     (case (counts ''N'', counts ''S'', counts ''E'', counts ''W'') of
        (Some n, Some s, Some e, Some w) \<Rightarrow>
          (let payload = str_int n @ '','' @ str_int s @ '','' @ str_int e @ '','' @ str_int w
                         @ [CHR 0x0A]
           in if can_write ser then (Inr (), [Wrote (encode_utf8 payload)])
              else (Inl SerialException, []))
      | _ \<Rightarrow> (Inl KeyError, []))"

text \<open>
  \<^verbatim>\<open>run\<close>: \<^verbatim>\<open>while True\<close> inside \<^verbatim>\<open>try ... except KeyboardInterrupt\<close>. The loop can run
  forever, so the model runs it over a finite list of iterations, each with what the
  outside world does in it: whether the user interrupts, what the camera read gives and
  how the port behaves. \<open>Still_running\<close> is the loop after the last listed iteration;
  \<open>Raised\<close> is an exception other than \<^verbatim>\<open>KeyboardInterrupt\<close> leaving \<^verbatim>\<open>run\<close>.
\<close>

record iteration =
  interrupted :: bool
  camera_read :: "box list option"
  ser :: serial_port

datatype run_result = Still_running | Interrupted | Raised py_error

fun run :: "iteration list \<Rightarrow> run_result \<times> io_event list" where
  "run [] = (Still_running, [])"
| "run (it # its) =
     (if interrupted it then (Interrupted, [Closed])
      else case process_frame (camera_read it) of
             Inl e \<Rightarrow> (Raised e, [])
           | Inr None \<Rightarrow> run its
           | Inr (Some counts) \<Rightarrow>
               if counts = Map.empty then run its
               else (case send_counts (ser it) counts of
                       (Inl e, events) \<Rightarrow> (Raised e, events)
                     | (Inr u, events) \<Rightarrow> (case run its of (r, events') \<Rightarrow> (r, events @ events'))))"

section \<open>traffic.py: corner regions\<close>

text \<open>Python's \<^verbatim>\<open>int(x)\<close> of a float: truncation towards zero.\<close>

definition py_int :: "real \<Rightarrow> int" where
  "py_int x = (if x < 0 then \<lceil>x\<rceil> else \<lfloor>x\<rfloor>)"

text \<open>
  The four regions of \<^verbatim>\<open>count_cars_in_regions\<close>, in the dictionary's order, each as
  \<^verbatim>\<open>[(x1, y1), (x2, y2)]\<close>.
\<close>

definition regions :: "int \<Rightarrow> int \<Rightarrow> (lane \<times> (int \<times> int) \<times> (int \<times> int)) list" where
  "regions width height =
     [(''North'', (width - width div 4, 0), (width, height div 4)),
      (''South'', (0, height - height div 4), (width div 4, height)),
      (''East'', (width - width div 4, height - height div 4), (width, height)),
      (''West'', (0, 0), (width div 4, height div 4))]"

text \<open>The inner loop over the regions for one detection centre and class.\<close>

fun count_regions ::
  "int \<Rightarrow> int \<Rightarrow> int \<Rightarrow> (lane \<times> (int \<times> int) \<times> (int \<times> int)) list \<Rightarrow> lane_counts
     \<Rightarrow> py_error + lane_counts" where
  "count_regions center_x center_y cls [] car_counts = Inr car_counts"
| "count_regions center_x center_y cls ((direction, (x1_reg, y1_reg), (x2_reg, y2_reg)) # rs) car_counts =
     (if x1_reg \<le> center_x \<and> center_x \<le> x2_reg \<and> y1_reg \<le> center_y \<and> center_y \<le> y2_reg
         \<and> cls \<in> set [2, 3, 5, 7]
      then case incr car_counts direction of
             Inl e \<Rightarrow> Inl e
           | Inr car_counts' \<Rightarrow> count_regions center_x center_y cls rs car_counts'
      else count_regions center_x center_y cls rs car_counts)"

text \<open>A detection is \<^verbatim>\<open>(x1, y1, x2, y2, conf, cls)\<close>, six floating-point numbers.\<close>

type_synonym detection = "real \<times> real \<times> real \<times> real \<times> real \<times> real"

fun count_detections ::
  "int \<Rightarrow> int \<Rightarrow> lane_counts \<Rightarrow> detection list \<Rightarrow> py_error + lane_counts" where
  "count_detections width height car_counts [] = Inr car_counts"
| "count_detections width height car_counts ((x1, y1, x2, y2, conf, cls) # ds) =
     (let center_x = (py_int x1 + py_int x2) div 2;
          center_y = (py_int y1 + py_int y2) div 2
      in case count_regions center_x center_y (py_int cls) (regions width height) car_counts of
           Inl e \<Rightarrow> Inl e
         | Inr car_counts' \<Rightarrow> count_detections width height car_counts' ds)"

definition count_cars_in_regions :: "int \<Rightarrow> int \<Rightarrow> detection list \<Rightarrow> py_error + lane_counts" where
  "count_cars_in_regions width height detections =
     count_detections width height
       [''North'' \<mapsto> 0, ''South'' \<mapsto> 0, ''East'' \<mapsto> 0, ''West'' \<mapsto> 0] detections"

section \<open>The wire format in the specification's words\<close>

text \<open>
  A 16-bit unsigned value as two bytes, low byte first.
\<close>

definition spec_u16_le :: "16 word \<Rightarrow> byte list" where
  "spec_u16_le v = [ucast v, ucast (drop_bit 8 v)]"

text \<open>
  One start byte \<open>0xAA\<close>, the four counts as 16-bit unsigned little-endian values in
  the order North, South, East, West, and one checksum byte: the XOR of the start byte
  and the eight count bytes.
\<close>

definition spec_packet :: "int \<Rightarrow> int \<Rightarrow> int \<Rightarrow> int \<Rightarrow> byte list" where
  "spec_packet north south east west =
     (let counts = spec_u16_le (word_of_int north) @ spec_u16_le (word_of_int south)
                 @ spec_u16_le (word_of_int east) @ spec_u16_le (word_of_int west)
      in [0xAA] @ counts @ [foldl (XOR) 0xAA counts])"

section \<open>Notions used in the statements\<close>

text \<open>
  The number of a lane's marker identifiers that occur among the detected identifiers.
\<close>

definition resolved :: "int list \<Rightarrow> int list \<Rightarrow> nat" where
  "resolved ids marker_ids = length (filter (\<lambda>marker_id. marker_id \<in> set ids) marker_ids)"

text \<open>
  A centre lies in a lane when the lane has a polygon and the containment test on it is
  not negative (inside or on an edge).
\<close>

definition in_lane :: "point_test \<Rightarrow> (lane \<times> polygon) list \<Rightarrow> lane \<Rightarrow> point \<Rightarrow> bool" where
  "in_lane ppt lane_polygons lane center =
     (case map_of lane_polygons lane of
        None \<Rightarrow> False
      | Some polygon \<Rightarrow> ppt polygon center \<ge> 0)"

text \<open>
  The lane the colour strategy assigns, in the specification's words: the first lane, in
  the order of \<^verbatim>\<open>lane_colors\<close>, whose reference colour is within the tolerance of
  the mask pixel and at minimal distance among all lanes; \<open>None\<close> (unassigned) when
  there is none.
\<close>

definition spec_assign :: "color \<Rightarrow> int \<Rightarrow> (lane \<times> color) list \<Rightarrow> lane option" where
  "spec_assign mask_color tolerance lane_colors =
     (case filter (\<lambda>(lane, color).
              color_dist mask_color color \<le> real_of_int tolerance
            \<and> (\<forall>(lane', color') \<in> set lane_colors.
                 color_dist mask_color color \<le> color_dist mask_color color')) lane_colors of
        [] \<Rightarrow> None
      | (lane, color) # rest \<Rightarrow> Some lane)"

text \<open>The mask pixel at a centre after clamping it to the mask's bounds.\<close>

definition clamped_pixel :: "mask \<Rightarrow> point \<Rightarrow> color" where
  "clamped_pixel m center =
     (case center of
        (cx, cy) \<Rightarrow>
          mask_pixel m (nat (np_clip cy 0 (int (mask_height m) - 1)))
                       (nat (np_clip cx 0 (int (mask_width m) - 1))))"

text \<open>The four counts of a count dictionary, in the order North, South, East, West.\<close>

definition counts_list :: "lane_counts \<Rightarrow> int option list" where
  "counts_list lane_counts = map lane_counts [''North'', ''South'', ''East'', ''West'']"

text \<open>The key \<^verbatim>\<open>process_frame\<close> increments for a box: the quadrant of its centre.\<close>

definition box_key :: "box \<Rightarrow> lane" where
  "box_key b = (case b of (x1, y1, x2, y2) \<Rightarrow> quadrant ((x1 + x2) / 2) ((y1 + y2) / 2))"

text \<open>The four counts of \<^verbatim>\<open>process_frame\<close>, in the order N, S, E, W.\<close>

definition counts_list_NSEW :: "lane_counts \<Rightarrow> int option list" where
  "counts_list_NSEW counts = map counts [''N'', ''S'', ''E'', ''W'']"

text \<open>For examples: a marker seen as a square of side 2 around \<open>(cx, cy)\<close>.\<close>

definition square_marker :: "real \<Rightarrow> real \<Rightarrow> marker_corners" where
  "square_marker cx cy = [(cx - 1, cy - 1), (cx + 1, cy - 1), (cx + 1, cy + 1), (cx - 1, cy + 1)]"

section \<open>Theorems: the checksummed sender\<close>

lemma low_byte_ucast:
  "(word_of_int (n mod 256) :: byte) = ucast (word_of_int n :: 16 word)"
  by (rule bit_word_eqI)
    (simp add: bit_simps bit_take_bit_iff flip: take_bit_eq_mod [where n=8, simplified])

lemma high_byte_ucast:
  "(word_of_int (n div 256) :: byte) = ucast (drop_bit 8 (word_of_int n :: 16 word))"
  by (rule bit_word_eqI)
    (simp add: bit_simps bit_take_bit_iff bit_drop_bit_eq
       flip: drop_bit_eq_div [where n=8, simplified])

lemma pack_H_spec:
  "0 \<le> n \<Longrightarrow> n < 65536 \<Longrightarrow> pack_H n = Inr (spec_u16_le (word_of_int n))"
  by (simp add: pack_H_def spec_u16_le_def low_byte_ucast high_byte_ucast)

lemma pack_H_too_big:
  "65536 \<le> n \<Longrightarrow> pack_H n = Inl StructError"
  by (simp add: pack_H_def)

lemma pack_H_Inr_bound:
  "pack_H n = Inr bs \<Longrightarrow> 0 \<le> n \<and> n < 65536"
  by (simp add: pack_H_def split: if_splits)

lemma xor_bytes_foldl: "xor_bytes c bs = foldl (XOR) c bs"
  by (induction bs arbitrary: c) simp_all

text \<open>The two bytes of \<open>spec_u16_le\<close> read back, low byte first, give the value.\<close>

lemma spec_u16_le_value:
  assumes "0 \<le> n" "n < 65536"
  shows "uint (spec_u16_le (word_of_int n) ! 0) + 256 * uint (spec_u16_le (word_of_int n) ! 1) = n"
proof -
  have lo: "uint (word_of_int (n mod 256) :: byte) = n mod 256"
    by (simp add: uint_word_of_int take_bit_eq_mod)
  have "0 \<le> n div 256" "n div 256 < 256"
    using assms by simp_all
  then have hi: "uint (word_of_int (n div 256) :: byte) = n div 256"
    by (simp add: uint_word_of_int take_bit_eq_mod)
  show ?thesis
    using lo hi by (simp add: spec_u16_le_def flip: low_byte_ucast high_byte_ucast)
qed

lemma build_packet_spec:
  assumes "0 \<le> get_or_zero lc ''North''" "get_or_zero lc ''North'' < 65536"
    and "0 \<le> get_or_zero lc ''South''" "get_or_zero lc ''South'' < 65536"
    and "0 \<le> get_or_zero lc ''East''" "get_or_zero lc ''East'' < 65536"
    and "0 \<le> get_or_zero lc ''West''" "get_or_zero lc ''West'' < 65536"
  shows "build_packet lc = Inr (spec_packet (get_or_zero lc ''North'') (get_or_zero lc ''South'')
           (get_or_zero lc ''East'') (get_or_zero lc ''West''))"
  using assms
  by (simp add: build_packet_def struct_pack_4H_def pack_H_spec spec_packet_def
      start_byte_def xor_bytes_foldl)

lemma build_packet_Inr_bound:
  assumes "build_packet lc = Inr p"
  shows "get_or_zero lc ''North'' < 65536 \<and> get_or_zero lc ''South'' < 65536
       \<and> get_or_zero lc ''East'' < 65536 \<and> get_or_zero lc ''West'' < 65536"
  using assms
  by (auto simp: build_packet_def struct_pack_4H_def Let_def
      split: sum.splits dest: pack_H_Inr_bound)

lemma build_packet_too_big:
  assumes "65536 \<le> get_or_zero lc ''North'' \<or> 65536 \<le> get_or_zero lc ''South''
         \<or> 65536 \<le> get_or_zero lc ''East'' \<or> 65536 \<le> get_or_zero lc ''West''"
  shows "build_packet lc = Inl StructError"
  using assms
  by (auto simp: build_packet_def struct_pack_4H_def Let_def pack_H_too_big
      split: sum.splits)

lemma written_send_Inl:
  "build_packet lc = Inl e \<Longrightarrow> send_serial_data port lc = (Inr (), [Print_error e])"
  by (simp add: send_serial_data_def send_body_def)

lemma written_send_cases:
  "written (snd (send_serial_data port lc)) =
     (case build_packet lc of
        Inl e \<Rightarrow> []
      | Inr p \<Rightarrow> if can_open port \<and> can_write port then [p] else [])"
  by (simp add: send_serial_data_def send_body_def split: sum.splits)

text \<open>
  C4. For a count record whose four counts are below \<open>2^16\<close> (and, being counts, not
  negative), the packet the sender builds is the start byte \<open>0xAA\<close>, the four counts as
  16-bit unsigned little-endian values in the order North, South, East, West, and the
  XOR of the start byte and the eight count bytes; when the port opens and accepts the
  write, that packet is what is written, once.
\<close>

theorem checksummed_packet_format:
  assumes "lane_counts ''North'' = Some north" and "lane_counts ''South'' = Some south"
    and "lane_counts ''East'' = Some east" and "lane_counts ''West'' = Some west"
    and "0 \<le> north" "north < 2 ^ 16" and "0 \<le> south" "south < 2 ^ 16"
    and "0 \<le> east" "east < 2 ^ 16" and "0 \<le> west" "west < 2 ^ 16"
  shows "build_packet lane_counts = Inr (spec_packet north south east west)
       \<and> (can_open port \<and> can_write port \<longrightarrow>
            written (snd (send_serial_data port lane_counts)) = [spec_packet north south east west])"
proof -
  have g: "get_or_zero lane_counts ''North'' = north" "get_or_zero lane_counts ''South'' = south"
    "get_or_zero lane_counts ''East'' = east" "get_or_zero lane_counts ''West'' = west"
    using assms(1-4) by (simp_all add: get_or_zero_def)
  have "build_packet lane_counts = Inr (spec_packet north south east west)"
    using build_packet_spec [of lane_counts] assms(5-12) by (simp add: g)
  then show ?thesis
    by (simp add: written_send_cases)
qed

theorem checksummed_packet_format_witness:
  "build_packet [''North'' \<mapsto> 1, ''South'' \<mapsto> 2, ''East'' \<mapsto> 3, ''West'' \<mapsto> 4]
     = Inr [0xAA, 0x01, 0x00, 0x02, 0x00, 0x03, 0x00, 0x04, 0x00,
            0xAA XOR 0x01 XOR 0x00 XOR 0x02 XOR 0x00 XOR 0x03 XOR 0x00 XOR 0x04 XOR 0x00]
   \<and> written (snd (send_serial_data \<lparr>can_open = True, can_write = True\<rparr>
        [''North'' \<mapsto> 1, ''South'' \<mapsto> 2, ''East'' \<mapsto> 3, ''West'' \<mapsto> 4]))
     = [[0xAA, 0x01, 0x00, 0x02, 0x00, 0x03, 0x00, 0x04, 0x00, 0xAE]]"
  using checksummed_packet_format
    [of "[''North'' \<mapsto> 1, ''South'' \<mapsto> 2, ''East'' \<mapsto> 3, ''West'' \<mapsto> 4]" 1 2 3 4
        "\<lparr>can_open = True, can_write = True\<rparr>"]
  by (simp add: spec_packet_def spec_u16_le_def)

text \<open>
  C10. The checksummed sender writes a packet only when each of the four counts is below
  65536. If some count is 65536 or more, the 16-bit packing fails, the error branch is
  taken (the error is printed) and nothing is written to the port, whatever the port
  would have done.
\<close>

theorem checksummed_sender_16bit_bound:
  "(written (snd (send_serial_data port lane_counts)) \<noteq> [] \<longrightarrow>
      get_or_zero lane_counts ''North'' < 65536 \<and> get_or_zero lane_counts ''South'' < 65536
    \<and> get_or_zero lane_counts ''East'' < 65536 \<and> get_or_zero lane_counts ''West'' < 65536)
   \<and> (65536 \<le> get_or_zero lane_counts ''North'' \<or> 65536 \<le> get_or_zero lane_counts ''South''
      \<or> 65536 \<le> get_or_zero lane_counts ''East'' \<or> 65536 \<le> get_or_zero lane_counts ''West'' \<longrightarrow>
      build_packet lane_counts = Inl StructError
    \<and> send_serial_data port lane_counts = (Inr (), [Print_error StructError])
    \<and> written (snd (send_serial_data port lane_counts)) = [])"
proof (intro conjI impI)
  assume w: "written (snd (send_serial_data port lane_counts)) \<noteq> []"
  then obtain p where "build_packet lane_counts = Inr p"
    by (cases "build_packet lane_counts") (simp_all add: written_send_cases)
  from build_packet_Inr_bound [OF this]
  show "get_or_zero lane_counts ''North'' < 65536" "get_or_zero lane_counts ''South'' < 65536"
    "get_or_zero lane_counts ''East'' < 65536" "get_or_zero lane_counts ''West'' < 65536"
    by simp_all
next
  assume big: "65536 \<le> get_or_zero lane_counts ''North'' \<or> 65536 \<le> get_or_zero lane_counts ''South''
      \<or> 65536 \<le> get_or_zero lane_counts ''East'' \<or> 65536 \<le> get_or_zero lane_counts ''West''"
  show b: "build_packet lane_counts = Inl StructError"
    by (rule build_packet_too_big [OF big])
  show "send_serial_data port lane_counts = (Inr (), [Print_error StructError])"
    by (rule written_send_Inl [OF b])
  show "written (snd (send_serial_data port lane_counts)) = []"
    by (simp add: written_send_Inl [OF b])
qed

theorem checksummed_sender_16bit_bound_witness:
  "written (snd (send_serial_data \<lparr>can_open = True, can_write = True\<rparr>
      [''North'' \<mapsto> 1, ''South'' \<mapsto> 2, ''East'' \<mapsto> 3, ''West'' \<mapsto> 4])) \<noteq> []
   \<and> get_or_zero [''North'' \<mapsto> 1, ''South'' \<mapsto> 2, ''East'' \<mapsto> 3, ''West'' \<mapsto> 4] ''West'' < 65536
   \<and> 65536 \<le> get_or_zero [''North'' \<mapsto> 0, ''South'' \<mapsto> 65536, ''East'' \<mapsto> 0, ''West'' \<mapsto> 0] ''South''
   \<and> send_serial_data \<lparr>can_open = True, can_write = True\<rparr>
        [''North'' \<mapsto> 0, ''South'' \<mapsto> 65536, ''East'' \<mapsto> 0, ''West'' \<mapsto> 0]
       = (Inr (), [Print_error StructError])"
proof -
  have w: "written (snd (send_serial_data \<lparr>can_open = True, can_write = True\<rparr>
      [''North'' \<mapsto> 1, ''South'' \<mapsto> 2, ''East'' \<mapsto> 3, ''West'' \<mapsto> 4])) \<noteq> []"
    by (simp add: written_send_cases build_packet_def struct_pack_4H_def pack_H_def
        get_or_zero_def)
  have big: "65536 \<le> get_or_zero [''North'' \<mapsto> 0, ''South'' \<mapsto> 65536, ''East'' \<mapsto> 0, ''West'' \<mapsto> 0] ''South''"
    by (simp add: get_or_zero_def)
  show ?thesis
    using w big
      checksummed_sender_16bit_bound [of "\<lparr>can_open = True, can_write = True\<rparr>"
        "[''North'' \<mapsto> 1, ''South'' \<mapsto> 2, ''East'' \<mapsto> 3, ''West'' \<mapsto> 4]"]
      checksummed_sender_16bit_bound [of "\<lparr>can_open = True, can_write = True\<rparr>"
        "[''North'' \<mapsto> 0, ''South'' \<mapsto> 65536, ''East'' \<mapsto> 0, ''West'' \<mapsto> 0]"]
    by blast
qed

section \<open>Theorems: lane polygons from markers\<close>

lemma incr_Some: "counts k = Some v \<Longrightarrow> incr counts k = Inr (counts(k \<mapsto> v + 1))"
  by (simp add: incr_def)

lemma dom_zero_counts: "dom (zero_counts ls) = set ls"
  by (auto simp: zero_counts_def dom_def)

lemma zero_counts_Some: "l \<in> set ls \<Longrightarrow> zero_counts ls l = Some 0"
  by (simp add: zero_counts_def)

lemma np_where_Nil_iff: "np_where ids m = [] \<longleftrightarrow> m \<notin> set ids"
  by (auto simp: np_where_def filter_empty_conv in_set_conv_nth)

lemma np_where_hd_less: "np_where ids m = i # rest \<Longrightarrow> i < length ids"
proof -
  assume "np_where ids m = i # rest"
  then have "i \<in> set (np_where ids m)" by simp
  then show ?thesis by (simp add: np_where_def)
qed

lemma lane_corners_of_length:
  assumes "length ids \<le> length corners"
  shows "\<exists>cs. lane_corners_of corners ids ms = Inr cs \<and> length cs = resolved ids ms"
proof (induction ms)
  case Nil
  then show ?case by (simp add: resolved_def)
next
  case (Cons m ms)
  then obtain cs where cs: "lane_corners_of corners ids ms = Inr cs" "length cs = resolved ids ms"
    by blast
  show ?case
  proof (cases "np_where ids m")
    case Nil
    then have "m \<notin> set ids" by (simp add: np_where_Nil_iff)
    with Nil cs show ?thesis by (simp add: resolved_def)
  next
    case (Cons i rest)
    then have "i < length corners" using np_where_hd_less assms by fastforce
    moreover have "m \<in> set ids" using Cons np_where_Nil_iff [of ids m] by auto
    ultimately show ?thesis using Cons cs by (simp add: resolved_def)
  qed
qed

lemma lane_polygons_of_keys:
  assumes "length ids \<le> length corners"
  shows "\<exists>lp. lane_polygons_of corners ids lms = Inr lp
     \<and> map fst lp = map fst (filter (\<lambda>(l, ms). 3 \<le> resolved ids ms) lms)"
proof (induction lms)
  case Nil
  then show ?case by simp
next
  case (Cons lm lms)
  obtain l ms where lm: "lm = (l, ms)" by (cases lm)
  obtain cs where cs: "lane_corners_of corners ids ms = Inr cs" "length cs = resolved ids ms"
    using lane_corners_of_length [OF assms] by blast
  from Cons obtain lp where "lane_polygons_of corners ids lms = Inr lp"
    "map fst lp = map fst (filter (\<lambda>(l, ms). 3 \<le> resolved ids ms) lms)" by blast
  then show ?case using cs by (simp add: lm)
qed

lemma distinct_lane_markers: "distinct (map fst lane_markers)"
  by (simp add: lane_markers_def)

lemma key_in_filter:
  assumes "distinct (map fst xs)" "(k, v) \<in> set xs"
  shows "k \<in> fst ` set (filter P xs) \<longleftrightarrow> P (k, v)"
proof
  assume "k \<in> fst ` set (filter P xs)"
  then obtain v' where "(k, v') \<in> set xs" "P (k, v')" by auto
  moreover have "v = v'" using assms \<open>(k, v') \<in> set xs\<close> by (rule eq_key_imp_eq_value)
  ultimately show "P (k, v)" by simp
next
  assume "P (k, v)"
  then have "(k, v) \<in> set (filter P xs)" using assms(2) by simp
  then show "k \<in> fst ` set (filter P xs)" by force
qed

lemma create_lane_polygons_keys:
  assumes "length ids \<le> length corners"
  shows "\<exists>lp. create_lane_polygons corners ids = Inr lp
     \<and> distinct (map fst lp) \<and> set (map fst lp) \<subseteq> set (map fst lane_markers)
     \<and> (\<forall>l ms. (l, ms) \<in> set lane_markers \<longrightarrow> (l \<in> fst ` set lp \<longleftrightarrow> 3 \<le> resolved ids ms))"
proof -
  obtain lp where lp: "lane_polygons_of corners ids lane_markers = Inr lp"
    "map fst lp = map fst (filter (\<lambda>(l, ms). 3 \<le> resolved ids ms) lane_markers)"
    using lane_polygons_of_keys [OF assms] by blast
  have d: "distinct (map fst lp)"
    unfolding lp(2) by (rule distinct_map_filter [OF distinct_lane_markers])
  have s: "set (map fst lp) \<subseteq> set (map fst lane_markers)"
    unfolding lp(2) by auto
  have m: "(l \<in> fst ` set lp \<longleftrightarrow> 3 \<le> resolved ids ms)" if "(l, ms) \<in> set lane_markers" for l ms
  proof -
    have "fst ` set lp = set (map fst lp)" by simp
    also have "\<dots> = fst ` set (filter (\<lambda>(l, ms). 3 \<le> resolved ids ms) lane_markers)"
      unfolding lp(2) by simp
    finally show ?thesis
      using key_in_filter [OF distinct_lane_markers that, of "\<lambda>(l, ms). 3 \<le> resolved ids ms"]
      by simp
  qed
  show ?thesis using lp(1) d s m by (simp add: create_lane_polygons_def)
qed


lemma count_center_total:
  assumes "distinct (map fst lp)" "fst ` set lp \<subseteq> dom lc"
  shows "\<exists>lc'. count_center ppt c lp lc = Inr lc' \<and> dom lc' = dom lc
     \<and> (\<forall>l. lc' l = (if in_lane ppt lp l c then map_option (\<lambda>v. v + 1) (lc l) else lc l))"
  using assms
proof (induction lp arbitrary: lc)
  case Nil
  then show ?case by (simp add: in_lane_def)
next
  case (Cons a lp)
  obtain lane polygon where a: "a = (lane, polygon)" by (cases a)
  from Cons.prems have d: "distinct (map fst lp)" and notin: "lane \<notin> fst ` set lp"
    and sub: "fst ` set lp \<subseteq> dom lc" and "lane \<in> dom lc"
    by (auto simp: a)
  then obtain v where v: "lc lane = Some v" by auto
  have nolane: "map_of lp lane = None" using notin by (simp add: map_of_eq_None_iff)
  show ?case
  proof (cases "ppt polygon c \<ge> 0")
    case True
    have sub': "fst ` set lp \<subseteq> dom (lc(lane \<mapsto> v + 1))" using sub by auto
    from Cons.IH [OF d sub'] obtain lc' where
      lc': "count_center ppt c lp (lc(lane \<mapsto> v + 1)) = Inr lc'" "dom lc' = dom (lc(lane \<mapsto> v + 1))"
      "\<And>l. lc' l = (if in_lane ppt lp l c then map_option (\<lambda>v. v + 1) ((lc(lane \<mapsto> v + 1)) l) else (lc(lane \<mapsto> v + 1)) l)"
      by blast
    have "dom lc' = dom lc" using lc'(2) \<open>lane \<in> dom lc\<close> by auto
    moreover have "lc' l = (if in_lane ppt (a # lp) l c then map_option (\<lambda>v. v + 1) (lc l) else lc l)" for l
      using lc'(3) [of l] True v nolane by (auto simp: in_lane_def a)
    ultimately show ?thesis using True v lc'(1) by (simp add: a incr_Some)
  next
    case False
    from Cons.IH [OF d sub] obtain lc' where
      lc': "count_center ppt c lp lc = Inr lc'" "dom lc' = dom lc"
      "\<And>l. lc' l = (if in_lane ppt lp l c then map_option (\<lambda>v. v + 1) (lc l) else lc l)"
      by blast
    have "lc' l = (if in_lane ppt (a # lp) l c then map_option (\<lambda>v. v + 1) (lc l) else lc l)" for l
      using lc'(3) [of l] False nolane by (auto simp: in_lane_def a)
    then show ?thesis using False lc'(1,2) by (simp add: a)
  qed
qed

lemma count_centers_total:
  assumes "distinct (map fst lp)" "fst ` set lp \<subseteq> dom lc"
  shows "\<exists>lc'. count_centers ppt lp lc cs = Inr lc' \<and> dom lc' = dom lc
     \<and> (\<forall>l. lc' l = map_option (\<lambda>v. v + int (length (filter (in_lane ppt lp l) cs))) (lc l))"
  using assms(2)
proof (induction cs arbitrary: lc)
  case Nil
  then show ?case by (simp add: option.map_ident)
next
  case (Cons c cs)
  from count_center_total [OF assms(1) Cons.prems, of ppt c] obtain lc1 where
    lc1: "count_center ppt c lp lc = Inr lc1" "dom lc1 = dom lc"
    "\<And>l. lc1 l = (if in_lane ppt lp l c then map_option (\<lambda>v. v + 1) (lc l) else lc l)"
    by blast
  have "fst ` set lp \<subseteq> dom lc1" using Cons.prems lc1(2) by simp
  from Cons.IH [OF this] obtain lc' where
    lc': "count_centers ppt lp lc1 cs = Inr lc'" "dom lc' = dom lc1"
    "\<And>l. lc' l = map_option (\<lambda>v. v + int (length (filter (in_lane ppt lp l) cs))) (lc1 l)"
    by blast
  have "lc' l = map_option (\<lambda>v. v + int (length (filter (in_lane ppt lp l) (c # cs)))) (lc l)" for l
    using lc'(3) [of l] lc1(3) [of l] by (cases "lc l") auto
  then show ?case using lc1(1,2) lc'(1,2) by simp
qed

lemma np_mean_square: "np_mean (square_marker cx cy) = (cx, cy)"
  by (simp add: np_mean_def square_marker_def)

lemma example_polygons:
  "create_lane_polygons
     [square_marker 0 0, square_marker 10 0, square_marker 0 10,
      square_marker 1 1, square_marker 11 1, square_marker 1 11] [0, 1, 2, 4, 5, 6]
   = Inr [(''North'', [(0, 0), (10, 0), (0, 10)]), (''South'', [(1, 1), (11, 1), (1, 11)])]"
  by (simp add: create_lane_polygons_def lane_markers_def np_where_def upt_rec
      np_mean_square as_polygon_def to_int32_def)

lemma example_point_tests:
  "pointPolygonTest [(0, 0), (10, 0), (0, 10)] (3, 3) = 1"
  "pointPolygonTest [(1, 1), (11, 1), (1, 11)] (3, 3) = 1"
  by (simp_all add: pointPolygonTest_def)

lemma markers_count_cars_total:
  assumes "detectMarkers img = (corners, Some ids)" and "length corners = length ids"
  shows "\<exists>lane_counts lane_polygons.
      create_lane_polygons corners ids = Inr lane_polygons
    \<and> markers_count_cars ppt detectMarkers centers img = Inr (lane_counts, lane_polygons)
    \<and> dom lane_counts = set (map fst lane_markers)
    \<and> (\<forall>lane \<in> set (map fst lane_markers).
         lane_counts lane = Some (int (length (filter (in_lane ppt lane_polygons lane) centers))))
    \<and> (\<forall>lane marker_ids. (lane, marker_ids) \<in> set lane_markers \<longrightarrow>
         (lane \<in> fst ` set lane_polygons \<longleftrightarrow> 3 \<le> resolved ids marker_ids))"
proof -
  from create_lane_polygons_keys [of ids corners] assms(2) obtain lp where
    lp: "create_lane_polygons corners ids = Inr lp" "distinct (map fst lp)"
    "set (map fst lp) \<subseteq> set (map fst lane_markers)"
    "\<And>l ms. (l, ms) \<in> set lane_markers \<Longrightarrow> (l \<in> fst ` set lp \<longleftrightarrow> 3 \<le> resolved ids ms)"
    by auto
  have sub: "fst ` set lp \<subseteq> dom (zero_counts (map fst lane_markers))"
    using lp(3) by (simp add: dom_zero_counts)
  from count_centers_total [OF lp(2) sub, of ppt centers] obtain lc where
    lc: "count_centers ppt lp (zero_counts (map fst lane_markers)) centers = Inr lc"
    "dom lc = dom (zero_counts (map fst lane_markers))"
    "\<And>l. lc l = map_option (\<lambda>v. v + int (length (filter (in_lane ppt lp l) centers)))
                 (zero_counts (map fst lane_markers) l)"
    by blast
  have run: "markers_count_cars ppt detectMarkers centers img = Inr (lc, lp)"
    using assms(1) lp(1) lc(1) by (simp add: markers_count_cars_def detect_markers_def)
  have cnt: "lc l = Some (int (length (filter (in_lane ppt lp l) centers)))"
    if "l \<in> set (map fst lane_markers)" for l
    using lc(3) [of l] zero_counts_Some [OF that] by simp
  show ?thesis
    using lp(1) run lc(2) cnt lp(4) by (auto simp: dom_zero_counts)
qed

text \<open>
  C7. The marker detection fails exactly when the marker detector returns no identifiers
  (\<^verbatim>\<open>None\<close>); the failure is a \<^verbatim>\<open>ValueError\<close>, and \<^verbatim>\<open>count_cars\<close> then raises it too
  instead of returning a lane mapping.
\<close>

theorem detection_absence_reported:
  "(isl (detect_markers detectMarkers img) \<longleftrightarrow> snd (detectMarkers img) = None)
   \<and> (snd (detectMarkers img) = None \<longrightarrow>
        detect_markers detectMarkers img = Inl ValueError
      \<and> markers_count_cars ppt detectMarkers centers img = Inl ValueError)"
  by (cases "detectMarkers img")
    (auto simp: detect_markers_def markers_count_cars_def split: option.splits)

theorem detection_absence_reported_witness:
  "snd (id ([] :: marker_corners list, None :: int list option)) = None
   \<and> isl (detect_markers id ([] :: marker_corners list, None))
   \<and> markers_count_cars pointPolygonTest id [(3, 3)] ([], None) = Inl ValueError
   \<and> \<not> isl (detect_markers id ([square_marker 0 0], Some [0]))"
  using detection_absence_reported [of id "([], None)" pointPolygonTest "[(3, 3)]"]
    detection_absence_reported [of id "([square_marker 0 0], Some [0])" pointPolygonTest "[(3, 3)]"]
  by simp

text \<open>
  C6. For detected marker corners and identifiers (as many corners as identifiers, as
  the detector returns them), the polygon construction succeeds and its result has a
  polygon for a lane exactly when at least three of the lane's marker identifiers are
  among the detected ones; a lane with fewer than three has no polygon and its count
  stays 0, whatever the centres.
\<close>

theorem lane_polygon_omission:
  assumes "detectMarkers img = (corners, Some ids)" and "length corners = length ids"
    and "(lane, marker_ids) \<in> set lane_markers"
  shows "\<exists>lane_counts lane_polygons.
      create_lane_polygons corners ids = Inr lane_polygons
    \<and> markers_count_cars ppt detectMarkers centers img = Inr (lane_counts, lane_polygons)
    \<and> (lane \<in> fst ` set lane_polygons \<longleftrightarrow> 3 \<le> resolved ids marker_ids)
    \<and> (resolved ids marker_ids < 3 \<longrightarrow> lane_counts lane = Some 0)"
proof -
  from markers_count_cars_total [of detectMarkers img corners ids ppt centers, OF assms(1,2)]
  obtain lc lp where
    r: "create_lane_polygons corners ids = Inr lp"
    "markers_count_cars ppt detectMarkers centers img = Inr (lc, lp)"
    "\<And>l. l \<in> set (map fst lane_markers) \<Longrightarrow>
       lc l = Some (int (length (filter (in_lane ppt lp l) centers)))"
    "\<And>l ms. (l, ms) \<in> set lane_markers \<Longrightarrow> (l \<in> fst ` set lp \<longleftrightarrow> 3 \<le> resolved ids ms)"
    by blast
  have iff: "lane \<in> fst ` set lp \<longleftrightarrow> 3 \<le> resolved ids marker_ids"
    by (rule r(4) [OF assms(3)])
  have key: "lane \<in> set (map fst lane_markers)"
    using assms(3) by force
  have "lc lane = Some 0" if "resolved ids marker_ids < 3"
  proof -
    from that iff have "lane \<notin> fst ` set lp" by simp
    then have "map_of lp lane = None" by (simp add: map_of_eq_None_iff)
    then have "filter (in_lane ppt lp lane) centers = []"
      by (simp add: in_lane_def)
    then show ?thesis using r(3) [OF key] by simp
  qed
  then show ?thesis using r(1,2) iff by blast
qed

theorem lane_polygon_omission_witness:
  "(''South'', [4, 5, 6, 7]) \<in> set lane_markers
   \<and> resolved [0, 1, 2, 4, 5] [4, 5, 6, 7] < 3
   \<and> (\<exists>lane_counts lane_polygons.
        create_lane_polygons
          [square_marker 0 0, square_marker 10 0, square_marker 0 10,
           square_marker 1 1, square_marker 11 1] [0, 1, 2, 4, 5] = Inr lane_polygons
      \<and> markers_count_cars pointPolygonTest id [(3, 3)]
          ([square_marker 0 0, square_marker 10 0, square_marker 0 10,
            square_marker 1 1, square_marker 11 1], Some [0, 1, 2, 4, 5])
          = Inr (lane_counts, lane_polygons)
      \<and> ''South'' \<notin> fst ` set lane_polygons
      \<and> lane_counts ''South'' = Some 0)"
proof -
  have h1: "id ([square_marker 0 0, square_marker 10 0, square_marker 0 10,
           square_marker 1 1, square_marker 11 1], Some [0, 1, 2, 4, 5 :: int])
     = ([square_marker 0 0, square_marker 10 0, square_marker 0 10,
           square_marker 1 1, square_marker 11 1], Some [0, 1, 2, 4, 5])"
    by simp
  have h2: "length [square_marker 0 0, square_marker 10 0, square_marker 0 10,
           square_marker 1 1, square_marker 11 1] = length [0, 1, 2, 4, 5 :: int]"
    by simp
  have h3: "(''South'', [4, 5, 6, 7]) \<in> set lane_markers"
    by (simp add: lane_markers_def)
  have h4: "resolved [0, 1, 2, 4, 5] [4, 5, 6, 7] < 3"
    by (simp add: resolved_def)
  from lane_polygon_omission [of id _ _ _ "''South''" "[4, 5, 6, 7]" pointPolygonTest "[(3, 3)]",
      OF h1 h2 h3] h3 h4
  show ?thesis by auto
qed

text \<open>
  C1, as the code has it. For every list of centres and the lane polygons built for a
  frame, \<^verbatim>\<open>count_cars\<close> returns, for each of the four lanes, the number of centres that
  lie in the lane's polygon (edges included): a centre increments the count of every
  lane whose polygon contains it, once each, and of no other lane. There is no stop at
  the first containing polygon.
\<close>

theorem polygon_counts_every_containing_lane:
  assumes "detectMarkers img = (corners, Some ids)" and "length corners = length ids"
  shows "\<exists>lane_counts lane_polygons.
      markers_count_cars ppt detectMarkers centers img = Inr (lane_counts, lane_polygons)
    \<and> (\<forall>lane \<in> set (map fst lane_markers).
         lane_counts lane = Some (int (length (filter (in_lane ppt lane_polygons lane) centers))))"
  using markers_count_cars_total [of detectMarkers img corners ids ppt centers, OF assms]
  by blast

theorem polygon_counts_every_containing_lane_witness:
  "length [square_marker 0 0, square_marker 10 0, square_marker 0 10,
           square_marker 1 1, square_marker 11 1, square_marker 1 11]
     = length [0, 1, 2, 4, 5, 6 :: int]
   \<and> (\<exists>lane_counts lane_polygons.
        markers_count_cars pointPolygonTest id [(3, 3)]
          ([square_marker 0 0, square_marker 10 0, square_marker 0 10,
            square_marker 1 1, square_marker 11 1, square_marker 1 11], Some [0, 1, 2, 4, 5, 6])
          = Inr (lane_counts, lane_polygons)
      \<and> lane_counts ''North''
          = Some (int (length (filter (in_lane pointPolygonTest lane_polygons ''North'') [(3, 3)]))))"
proof -
  have h1: "id ([square_marker 0 0, square_marker 10 0, square_marker 0 10,
           square_marker 1 1, square_marker 11 1, square_marker 1 11], Some [0, 1, 2, 4, 5, 6 :: int])
     = ([square_marker 0 0, square_marker 10 0, square_marker 0 10,
           square_marker 1 1, square_marker 11 1, square_marker 1 11], Some [0, 1, 2, 4, 5, 6])"
    by simp
  have h2: "length [square_marker 0 0, square_marker 10 0, square_marker 0 10,
           square_marker 1 1, square_marker 11 1, square_marker 1 11]
     = length [0, 1, 2, 4, 5, 6 :: int]"
    by simp
  have h3: "''North'' \<in> set (map fst lane_markers)"
    by (simp add: lane_markers_def)
  from polygon_counts_every_containing_lane [of id _ _ _ pointPolygonTest "[(3, 3)]", OF h1 h2]
    h2 h3
  show ?thesis by blast
qed

text \<open>
  C1 as stated fails: with overlapping North and South polygons, the single centre
  \<open>(3, 3)\<close> lies in both and both counts become 1.
\<close>

theorem polygon_single_assignment_counterexample:
  "map_sum id (apfst counts_list)
     (markers_count_cars pointPolygonTest id [(3, 3)]
       ([square_marker 0 0, square_marker 10 0, square_marker 0 10,
         square_marker 1 1, square_marker 11 1, square_marker 1 11], Some [0, 1, 2, 4, 5, 6]))
   = Inr ([Some 1, Some 1, Some 0, Some 0],
          [(''North'', [(0, 0), (10, 0), (0, 10)]), (''South'', [(1, 1), (11, 1), (1, 11)])])"
  by (simp add: markers_count_cars_def detect_markers_def example_polygons example_point_tests
      incr_def zero_counts_def lane_markers_def counts_list_def)

section \<open>Theorems: the colour mask\<close>

lemma list_has_min:
  assumes "xs \<noteq> []"
  shows "\<exists>x \<in> set xs. \<forall>y \<in> set xs. (f x :: real) \<le> f y"
proof -
  have "arg_min_list f xs \<in> set xs" using assms by (rule arg_min_list_in)
  moreover have "\<forall>y \<in> set xs. f (arg_min_list f xs) \<le> f y"
    using assms by (simp add: f_arg_min_list_f)
  ultimately show ?thesis by blast
qed

lemma match_lanes_filter:
  "match_lanes px tol lcs best md =
     (case filter (\<lambda>(l, c). color_dist px c \<le> real_of_int tol
                 \<and> (case md of None \<Rightarrow> True | Some m \<Rightarrow> color_dist px c < m)
                 \<and> (\<forall>(l', c') \<in> set lcs. color_dist px c \<le> color_dist px c')) lcs of
        [] \<Rightarrow> best
      | (l, c) # rest \<Rightarrow> Some l)"
proof (induction lcs arbitrary: best md)
  case Nil
  then show ?case by simp
next
  case (Cons a lcs)
  obtain l c where a: "a = (l, c)" by (cases a)
  define d where "d = (\<lambda>e :: lane \<times> color. color_dist px (snd e))"
  define below where "below = (\<lambda>(md :: real option) x. case md of None \<Rightarrow> True | Some m \<Rightarrow> x < m)"
  define P where "P = (\<lambda>md (ys :: (lane \<times> color) list) e.
     d e \<le> real_of_int tol \<and> below md (d e) \<and> (\<forall>e' \<in> set ys. d e \<le> d e'))"
  have P_eq: "(\<lambda>(l, c). color_dist px c \<le> real_of_int tol
                 \<and> (case md of None \<Rightarrow> True | Some m \<Rightarrow> color_dist px c < m)
                 \<and> (\<forall>(l', c') \<in> set ys. color_dist px c \<le> color_dist px c')) = P md ys" for md ys
    by (auto simp: P_def d_def below_def fun_eq_iff split: option.splits)
  have IH: "match_lanes px tol lcs best' md' =
     (case filter (P md' lcs) lcs of [] \<Rightarrow> best' | (l, c) # rest \<Rightarrow> Some l)" for best' md'
    using Cons.IH [of best' md'] by (simp only: P_eq)
  show ?case
  proof (cases "below md (d a) \<and> d a \<le> real_of_int tol")
    case accept: True
    have step: "match_lanes px tol (a # lcs) best md = match_lanes px tol lcs (Some l) (Some (d a))"
      using accept by (simp add: a d_def below_def Let_def)
    show ?thesis
    proof (cases "\<forall>e \<in> set lcs. d a \<le> d e")
      case True
      then have "P md (a # lcs) a" using accept by (simp add: P_def)
      moreover have "filter (P (Some (d a)) lcs) lcs = []"
        using True by (auto simp: filter_empty_conv P_def below_def)
      ultimately show ?thesis
        unfolding P_eq step IH by (simp add: a)
    next
      case False
      then obtain z where z: "z \<in> set lcs" "d z < d a" by force
      have "\<not> P md (a # lcs) a"
      proof
        assume "P md (a # lcs) a"
        then have "\<forall>e' \<in> set (a # lcs). d a \<le> d e'" by (simp add: P_def)
        then have "d a \<le> d z" using z(1) by simp
        with z(2) show False by simp
      qed
      moreover have "P md (a # lcs) e \<longleftrightarrow> P (Some (d a)) lcs e" if "e \<in> set lcs" for e
        using that z accept by (cases md) (force simp: P_def below_def)+
      ultimately have f: "filter (P md (a # lcs)) (a # lcs) = filter (P (Some (d a)) lcs) lcs"
        by (simp cong: filter_cong)
      have "lcs \<noteq> []" using z by auto
      from list_has_min [OF this, of d] obtain x where
        x: "x \<in> set lcs" "\<forall>y \<in> set lcs. d x \<le> d y" by blast
      then have "d x \<le> d z" using z by simp
      then have "d x < d a" "d x \<le> real_of_int tol" using z(2) accept by simp_all
      then have "P (Some (d a)) lcs x" using x(2) by (simp add: P_def below_def)
      then have "filter (P (Some (d a)) lcs) lcs \<noteq> []"
        using x(1) by (auto simp: filter_empty_conv)
      then show ?thesis
        unfolding P_eq step IH f by (simp split: list.splits)
    qed
  next
    case reject: False
    have step: "match_lanes px tol (a # lcs) best md = match_lanes px tol lcs best md"
      using reject by (auto simp: a d_def below_def Let_def)
    have "\<not> P md (a # lcs) a" using reject by (auto simp: P_def)
    moreover have "P md (a # lcs) e \<longleftrightarrow> P md lcs e" if "e \<in> set lcs" for e
      using that reject by (cases md) (force simp: P_def below_def)+
    ultimately have f: "filter (P md (a # lcs)) (a # lcs) = filter (P md lcs) lcs"
      by (simp cong: filter_cong)
    show ?thesis unfolding P_eq step IH f by simp
  qed
qed

lemma match_lanes_spec: "match_lanes px tol lcs None None = spec_assign px tol lcs"
  unfolding match_lanes_filter spec_assign_def by simp

lemma np_clip_range: "0 < n \<Longrightarrow> 0 \<le> np_clip a 0 (int n - 1) \<and> np_clip a 0 (int n - 1) < int n"
  by (auto simp: np_clip_def)

lemma py_index_clipped:
  "0 < n \<Longrightarrow> py_index n (np_clip a 0 (int n - 1)) = Inr (nat (np_clip a 0 (int n - 1)))"
  using np_clip_range [of n a] by (simp add: py_index_def)

lemma mask_at_clipped:
  assumes "0 < mask_height m" "0 < mask_width m"
  shows "mask_at m (np_clip cy 0 (int (mask_height m) - 1)) (np_clip cx 0 (int (mask_width m) - 1))
         = Inr (clamped_pixel m (cx, cy))"
  using assms by (simp add: mask_at_def py_index_clipped clamped_pixel_def)

lemma spec_assign_in_keys:
  assumes "spec_assign px tol lcs = Some l"
  shows "l \<in> fst ` set lcs"
proof -
  from assms obtain c rest where
    "filter (\<lambda>(lane, color). color_dist px color \<le> real_of_int tol
       \<and> (\<forall>(lane', color') \<in> set lcs. color_dist px color \<le> color_dist px color')) lcs
     = (l, c) # rest"
    by (auto simp: spec_assign_def split: list.splits)
  then have "(l, c) \<in> set (filter (\<lambda>(lane, color). color_dist px color \<le> real_of_int tol
       \<and> (\<forall>(lane', color') \<in> set lcs. color_dist px color \<le> color_dist px color')) lcs)"
    by simp
  then have "(l, c) \<in> set lcs" by simp
  then show ?thesis by force
qed

lemma masking_count_loop_total:
  assumes "0 < mask_height m" "0 < mask_width m"
    and "[] \<notin> fst ` set lcs" and "fst ` set lcs \<subseteq> dom lc"
  shows "\<exists>lc'. masking_count_loop m lcs tol lc centers = Inr lc' \<and> dom lc' = dom lc
     \<and> (\<forall>l. lc' l = map_option (\<lambda>v. v + int (length
            (filter (\<lambda>c. spec_assign (clamped_pixel m c) tol lcs = Some l) centers))) (lc l))"
  using assms(4)
proof (induction centers arbitrary: lc)
  case Nil
  then show ?case by (simp add: option.map_ident)
next
  case (Cons center centers)
  obtain cx cy where center: "center = (cx, cy)" by (cases center)
  let ?b = "spec_assign (clamped_pixel m center) tol lcs"
  show ?case
  proof (cases ?b)
    case None
    from Cons.IH [OF Cons.prems] obtain lc' where
      lc': "masking_count_loop m lcs tol lc centers = Inr lc'" "dom lc' = dom lc"
      "\<And>l. lc' l = map_option (\<lambda>v. v + int (length
            (filter (\<lambda>c. spec_assign (clamped_pixel m c) tol lcs = Some l) centers))) (lc l)"
      by blast
    have "masking_count_loop m lcs tol lc (center # centers) = Inr lc'"
      using None lc'(1) assms(1,2)
      by (simp add: center mask_at_clipped match_lanes_spec truthy_def Let_def)
    then show ?thesis using lc'(2,3) None by simp
  next
    case (Some lane)
    then have key: "lane \<in> fst ` set lcs" by (rule spec_assign_in_keys)
    then have ne: "lane \<noteq> []" using assms(3) by metis
    from key Cons.prems obtain v where v: "lc lane = Some v" by auto
    have sub: "fst ` set lcs \<subseteq> dom (lc(lane \<mapsto> v + 1))" using Cons.prems by auto
    from Cons.IH [OF sub] obtain lc' where
      lc': "masking_count_loop m lcs tol (lc(lane \<mapsto> v + 1)) centers = Inr lc'"
      "dom lc' = dom (lc(lane \<mapsto> v + 1))"
      "\<And>l. lc' l = map_option (\<lambda>v. v + int (length
            (filter (\<lambda>c. spec_assign (clamped_pixel m c) tol lcs = Some l) centers)))
            ((lc(lane \<mapsto> v + 1)) l)"
      by blast
    have "masking_count_loop m lcs tol lc (center # centers) = Inr lc'"
      using Some ne v lc'(1) assms(1,2)
      by (simp add: center mask_at_clipped match_lanes_spec truthy_def Let_def incr_Some)
    moreover have "dom lc' = dom lc" using lc'(2) v by auto
    moreover have "lc' l = map_option (\<lambda>v. v + int (length
            (filter (\<lambda>c. spec_assign (clamped_pixel m c) tol lcs = Some l) (center # centers)))) (lc l)" for l
      using lc'(3) [of l] Some v by (cases "lc l") auto
    ultimately show ?thesis by simp
  qed
qed

lemma masking_count_cars_total:
  assumes "0 < mask_height m" "0 < mask_width m" and "[] \<notin> fst ` set lcs"
  shows "\<exists>lane_counts. masking_count_cars m lcs tol centers = Inr lane_counts
     \<and> dom lane_counts = fst ` set lcs
     \<and> (\<forall>l \<in> fst ` set lcs. lane_counts l = Some (int (length
            (filter (\<lambda>c. spec_assign (clamped_pixel m c) tol lcs = Some l) centers))))"
proof -
  have sub: "fst ` set lcs \<subseteq> dom (zero_counts (map fst lcs))"
    by (simp add: dom_zero_counts)
  from masking_count_loop_total [OF assms sub, of tol centers] obtain lc' where
    lc': "masking_count_loop m lcs tol (zero_counts (map fst lcs)) centers = Inr lc'"
    "dom lc' = dom (zero_counts (map fst lcs))"
    "\<And>l. lc' l = map_option (\<lambda>v. v + int (length
            (filter (\<lambda>c. spec_assign (clamped_pixel m c) tol lcs = Some l) centers)))
            (zero_counts (map fst lcs) l)"
    by blast
  have "lc' l = Some (int (length
            (filter (\<lambda>c. spec_assign (clamped_pixel m c) tol lcs = Some l) centers)))"
    if "l \<in> fst ` set lcs" for l
    using lc'(3) [of l] zero_counts_Some [of l "map fst lcs"] that by simp
  then show ?thesis using lc'(1,2) by (simp add: masking_count_cars_def dom_zero_counts)
qed

lemma color_dist_zero_iff: "color_dist px c = 0 \<longleftrightarrow> px = c"
proof -
  obtain b g r where px: "px = (b, g, r)" by (cases px)
  obtain b' g' r' where c: "c = (b', g', r')" by (cases c)
  have "(b - b')\<^sup>2 + (g - g')\<^sup>2 + (r - r')\<^sup>2 = 0 \<longleftrightarrow> b = b' \<and> g = g' \<and> r = r'"
    by (simp add: sum_power2_eq_zero_iff add_nonneg_eq_0_iff)
  then show ?thesis
    by (simp add: color_dist_def px c flip: of_int_add of_int_power del: of_int_add of_int_power)
qed

lemma color_dist_nonneg: "0 \<le> color_dist px c"
  by (simp add: color_dist_def split: prod.splits)

lemma snd_unique:
  assumes "distinct (map snd xs)" "(a, c) \<in> set xs" "(b, c) \<in> set xs"
  shows "a = b"
proof -
  have "inj_on snd (set xs)" using assms(1) by (simp add: distinct_map)
  moreover have "snd (a, c) = snd (b, c)" by simp
  ultimately have "(a, c) = (b, c)" using assms(2,3) by (rule inj_onD)
  then show ?thesis by simp
qed

lemma spec_assign_exact:
  assumes "0 \<le> tol" and "(lane, px) \<in> set lcs" and "distinct (map snd lcs)"
  shows "spec_assign px tol lcs = Some lane"
proof -
  let ?P = "\<lambda>(lane, color). color_dist px color \<le> real_of_int tol
       \<and> (\<forall>(lane', color') \<in> set lcs. color_dist px color \<le> color_dist px color')"
  have zero: "color_dist px px = 0" by (simp add: color_dist_zero_iff)
  have "?P (lane, px)" using assms(1) by (simp add: zero color_dist_nonneg split: prod.splits)
  then have "(lane, px) \<in> set (filter ?P lcs)" using assms(2) by simp
  then obtain l c rest where f: "filter ?P lcs = (l, c) # rest"
    by (cases "filter ?P lcs") auto
  then have "(l, c) \<in> set (filter ?P lcs)" by simp
  then have in_l: "(l, c) \<in> set lcs" and "?P (l, c)" by simp_all
  then have "color_dist px c \<le> color_dist px px" using assms(2) by auto
  then have "color_dist px c = 0" using zero color_dist_nonneg [of px c] by simp
  then have "c = px" by (simp add: color_dist_zero_iff)
  then have "l = lane" using snd_unique [OF assms(3) in_l [unfolded \<open>c = px\<close>] assms(2)] by simp
  then show ?thesis using f by (simp add: spec_assign_def)
qed

lemma spec_assign_None_iff:
  "spec_assign px tol lcs = None \<longleftrightarrow> (\<forall>(l, c) \<in> set lcs. real_of_int tol < color_dist px c)"
proof
  assume none: "spec_assign px tol lcs = None"
  show "\<forall>(l, c) \<in> set lcs. real_of_int tol < color_dist px c"
  proof (cases "lcs = []")
    case True
    then show ?thesis by simp
  next
    case False
    from list_has_min [OF this, of "\<lambda>e. color_dist px (snd e)"] obtain x where
      x: "x \<in> set lcs" "\<forall>y \<in> set lcs. color_dist px (snd x) \<le> color_dist px (snd y)"
      by blast
    have "\<not> color_dist px (snd x) \<le> real_of_int tol"
    proof
      assume "color_dist px (snd x) \<le> real_of_int tol"
      then have "x \<in> set (filter (\<lambda>(lane, color). color_dist px color \<le> real_of_int tol
         \<and> (\<forall>(lane', color') \<in> set lcs. color_dist px color \<le> color_dist px color')) lcs)"
        using x by (auto split: prod.splits)
      then have "filter (\<lambda>(lane, color). color_dist px color \<le> real_of_int tol
         \<and> (\<forall>(lane', color') \<in> set lcs. color_dist px color \<le> color_dist px color')) lcs \<noteq> []"
        by (metis empty_iff list.set(1))
      then show False using none
        by (auto simp: spec_assign_def split: list.splits prod.splits)
    qed
    then show ?thesis using x(2) by (auto split: prod.splits)
  qed
next
  assume "\<forall>(l, c) \<in> set lcs. real_of_int tol < color_dist px c"
  then have "filter (\<lambda>(lane, color). color_dist px color \<le> real_of_int tol
         \<and> (\<forall>(lane', color') \<in> set lcs. color_dist px color \<le> color_dist px color')) lcs = []"
    by (auto simp: filter_empty_conv)
  then show "spec_assign px tol lcs = None" by (simp add: spec_assign_def)
qed

lemma masking_count_loop_Inr:
  assumes "0 < mask_height m" "0 < mask_width m" and "fst ` set lcs \<subseteq> dom lc"
  shows "\<exists>lc'. masking_count_loop m lcs tol lc centers = Inr lc'"
  using assms(3)
proof (induction centers arbitrary: lc)
  case Nil
  then show ?case by simp
next
  case (Cons center centers)
  obtain cx cy where center: "center = (cx, cy)" by (cases center)
  show ?case
  proof (cases "truthy (spec_assign (clamped_pixel m center) tol lcs)")
    case False
    then show ?thesis using Cons.IH [OF Cons.prems] assms(1,2)
      by (simp add: center mask_at_clipped match_lanes_spec Let_def)
  next
    case True
    then obtain lane where lane: "spec_assign (clamped_pixel m center) tol lcs = Some lane"
      by (auto simp: truthy_def split: option.splits)
    then have "lane \<in> fst ` set lcs" by (rule spec_assign_in_keys)
    with Cons.prems obtain v where v: "lc lane = Some v" by auto
    have "fst ` set lcs \<subseteq> dom (lc(lane \<mapsto> v + 1))" using Cons.prems by auto
    from Cons.IH [OF this] obtain lc' where
      "masking_count_loop m lcs tol (lc(lane \<mapsto> v + 1)) centers = Inr lc'" by blast
    then have "masking_count_loop m lcs tol lc (center # centers) = Inr lc'"
      using True lane v assms(1,2)
      by (simp add: center mask_at_clipped match_lanes_spec Let_def incr_Some)
    then show ?thesis by blast
  qed
qed

text \<open>
  C5. For a centre and a non-empty mask, the lane the loop of \<^verbatim>\<open>count_cars\<close> picks is the
  first lane, in the order of \<^verbatim>\<open>lane_colors\<close>, whose reference colour is within the
  tolerance of the mask pixel at the clamped centre and at minimal Euclidean distance
  among all lanes; it is \<open>None\<close> exactly when no lane's colour is within the tolerance.
  The count of the assigned lane becomes 1 and every other count stays 0; an unassigned
  centre increments nothing. A pixel equal to a lane's reference colour is assigned that
  lane for every tolerance above 0 (the reference colours being distinct, as the
  application's are).
\<close>

theorem color_mask_assignment:
  assumes "0 < mask_height m" and "0 < mask_width m" and "[] \<notin> fst ` set lane_colors"
  shows "match_lanes (clamped_pixel m center) tolerance lane_colors None None
           = spec_assign (clamped_pixel m center) tolerance lane_colors
    \<and> (spec_assign (clamped_pixel m center) tolerance lane_colors = None \<longleftrightarrow>
         (\<forall>(lane, color) \<in> set lane_colors.
            real_of_int tolerance < color_dist (clamped_pixel m center) color))
    \<and> (\<exists>lane_counts.
          masking_count_cars m lane_colors tolerance [center] = Inr lane_counts
        \<and> (\<forall>lane \<in> fst ` set lane_colors.
             lane_counts lane =
               Some (if spec_assign (clamped_pixel m center) tolerance lane_colors = Some lane
                     then 1 else 0)))
    \<and> (0 < tolerance \<and> (lane, clamped_pixel m center) \<in> set lane_colors
         \<and> distinct (map snd lane_colors) \<longrightarrow>
       spec_assign (clamped_pixel m center) tolerance lane_colors = Some lane)"
proof (intro conjI)
  show "match_lanes (clamped_pixel m center) tolerance lane_colors None None
           = spec_assign (clamped_pixel m center) tolerance lane_colors"
    by (rule match_lanes_spec)
  show "spec_assign (clamped_pixel m center) tolerance lane_colors = None \<longleftrightarrow>
         (\<forall>(lane, color) \<in> set lane_colors.
            real_of_int tolerance < color_dist (clamped_pixel m center) color)"
    by (rule spec_assign_None_iff)
  from masking_count_cars_total [OF assms, of tolerance "[center]"] obtain lane_counts where
    lc: "masking_count_cars m lane_colors tolerance [center] = Inr lane_counts"
    "\<And>l. l \<in> fst ` set lane_colors \<Longrightarrow> lane_counts l = Some (int (length
            (filter (\<lambda>c. spec_assign (clamped_pixel m c) tolerance lane_colors = Some l) [center])))"
    by blast
  have "lane_counts l =
      Some (if spec_assign (clamped_pixel m center) tolerance lane_colors = Some l then 1 else 0)"
    if "l \<in> fst ` set lane_colors" for l
    using lc(2) [OF that] by simp
  then show "\<exists>lane_counts.
          masking_count_cars m lane_colors tolerance [center] = Inr lane_counts
        \<and> (\<forall>lane \<in> fst ` set lane_colors.
             lane_counts lane =
               Some (if spec_assign (clamped_pixel m center) tolerance lane_colors = Some lane
                     then 1 else 0))"
    using lc(1) by blast
  show "0 < tolerance \<and> (lane, clamped_pixel m center) \<in> set lane_colors
         \<and> distinct (map snd lane_colors) \<longrightarrow>
       spec_assign (clamped_pixel m center) tolerance lane_colors = Some lane"
    using spec_assign_exact [of tolerance lane "clamped_pixel m center" lane_colors] by simp
qed

theorem color_mask_assignment_witness:
  "0 < mask_height \<lparr>mask_height = 2, mask_width = 3, mask_pixel = \<lambda>row col. (255, 0, 0)\<rparr>
   \<and> [] \<notin> fst ` set app_lane_colors
   \<and> 0 < default_tolerance
   \<and> (''North'', clamped_pixel
         \<lparr>mask_height = 2, mask_width = 3, mask_pixel = \<lambda>row col. (255, 0, 0)\<rparr> (7, - 4))
       \<in> set app_lane_colors
   \<and> distinct (map snd app_lane_colors)
   \<and> match_lanes (clamped_pixel
         \<lparr>mask_height = 2, mask_width = 3, mask_pixel = \<lambda>row col. (255, 0, 0)\<rparr> (7, - 4))
        default_tolerance app_lane_colors None None = Some ''North''
   \<and> (\<exists>lane_counts.
        masking_count_cars \<lparr>mask_height = 2, mask_width = 3, mask_pixel = \<lambda>row col. (255, 0, 0)\<rparr>
          app_lane_colors default_tolerance [(7, - 4)] = Inr lane_counts
      \<and> lane_counts ''North'' = Some 1 \<and> lane_counts ''South'' = Some 0)"
proof -
  let ?m = "\<lparr>mask_height = 2, mask_width = 3, mask_pixel = \<lambda>row col. (255, 0, 0) :: color\<rparr>"
  have h1: "0 < mask_height ?m" and h2: "0 < mask_width ?m" by simp_all
  have h3: "[] \<notin> fst ` set app_lane_colors" by (simp add: app_lane_colors_def)
  have h4: "0 < default_tolerance" by (simp add: default_tolerance_def)
  have h5: "(''North'', clamped_pixel ?m (7, - 4)) \<in> set app_lane_colors"
    by (simp add: app_lane_colors_def clamped_pixel_def)
  have h6: "distinct (map snd app_lane_colors)" by (simp add: app_lane_colors_def)
  have k: "''North'' \<in> fst ` set app_lane_colors" "''South'' \<in> fst ` set app_lane_colors"
    by (simp_all add: app_lane_colors_def)
  note t = color_mask_assignment [OF h1 h2 h3, of "(7, - 4)" default_tolerance "''North''"]
  from t h4 h5 h6 have s: "spec_assign (clamped_pixel ?m (7, - 4)) default_tolerance app_lane_colors
      = Some ''North''" by blast
  from t have m: "match_lanes (clamped_pixel ?m (7, - 4)) default_tolerance app_lane_colors None None
      = spec_assign (clamped_pixel ?m (7, - 4)) default_tolerance app_lane_colors" by blast
  from t obtain lane_counts where
    lc: "masking_count_cars ?m app_lane_colors default_tolerance [(7, - 4)] = Inr lane_counts"
    "\<forall>lane \<in> fst ` set app_lane_colors. lane_counts lane =
       Some (if spec_assign (clamped_pixel ?m (7, - 4)) default_tolerance app_lane_colors = Some lane
             then 1 else 0)"
    by blast
  have "lane_counts ''North'' = Some 1" "lane_counts ''South'' = Some 0"
    using bspec [OF lc(2) k(1)] bspec [OF lc(2) k(2)] s by simp_all
  then show ?thesis using h1 h3 h4 h5 h6 m s lc(1) by simp
qed

text \<open>
  C9, as the code has it. In the colour strategy the centre is clamped into
  \<open>[0, width - 1] \<times> [0, height - 1]\<close>, by \<^verbatim>\<open>run\<close> and again by \<^verbatim>\<open>count_cars\<close>, before
  the mask is read: for a non-empty mask and every integer centre the read is inside the
  mask and \<^verbatim>\<open>count_cars\<close> returns a count dictionary (no \<^verbatim>\<open>IndexError\<close>).
\<close>

theorem color_mask_lookup_in_bounds:
  assumes "0 < mask_height m" and "0 < mask_width m"
  shows "0 \<le> np_clip cx 0 (int (mask_width m) - 1)
       \<and> np_clip cx 0 (int (mask_width m) - 1) \<le> int (mask_width m) - 1
       \<and> 0 \<le> np_clip cy 0 (int (mask_height m) - 1)
       \<and> np_clip cy 0 (int (mask_height m) - 1) \<le> int (mask_height m) - 1
       \<and> mask_at m (np_clip cy 0 (int (mask_height m) - 1)) (np_clip cx 0 (int (mask_width m) - 1))
           = Inr (clamped_pixel m (cx, cy))
       \<and> (\<forall>c \<in> set (masking_centers (int (mask_width m)) (int (mask_height m)) boxes).
            0 \<le> fst c \<and> fst c \<le> int (mask_width m) - 1
          \<and> 0 \<le> snd c \<and> snd c \<le> int (mask_height m) - 1)
       \<and> (\<exists>lane_counts. masking_count_cars m lane_colors tolerance centers = Inr lane_counts)"
proof -
  have a: "0 \<le> np_clip cx 0 (int (mask_width m) - 1)"
    "np_clip cx 0 (int (mask_width m) - 1) \<le> int (mask_width m) - 1"
    "0 \<le> np_clip cy 0 (int (mask_height m) - 1)"
    "np_clip cy 0 (int (mask_height m) - 1) \<le> int (mask_height m) - 1"
    using assms by (simp_all add: np_clip_def)
  have b: "\<forall>c \<in> set (masking_centers (int (mask_width m)) (int (mask_height m)) boxes).
            0 \<le> fst c \<and> fst c \<le> int (mask_width m) - 1
          \<and> 0 \<le> snd c \<and> snd c \<le> int (mask_height m) - 1"
    using assms by (auto simp: masking_centers_def np_clip_def)
  have "fst ` set lane_colors \<subseteq> dom (zero_counts (map fst lane_colors))"
    by (simp add: dom_zero_counts)
  from masking_count_loop_Inr [OF assms this]
  have c: "\<exists>lane_counts. masking_count_cars m lane_colors tolerance centers = Inr lane_counts"
    by (simp add: masking_count_cars_def)
  show ?thesis using a b c mask_at_clipped [OF assms] by simp
qed

theorem color_mask_lookup_in_bounds_witness:
  "0 < mask_height \<lparr>mask_height = 2, mask_width = 3, mask_pixel = \<lambda>row col. (255, 0, 0)\<rparr>
   \<and> np_clip 7 0 (int (mask_width \<lparr>mask_height = 2, mask_width = 3, mask_pixel = \<lambda>row col. (255, 0, 0)\<rparr>) - 1) = 2
   \<and> np_clip (- 4) 0 (int (mask_height \<lparr>mask_height = 2, mask_width = 3, mask_pixel = \<lambda>row col. (255, 0, 0)\<rparr>) - 1) = 0
   \<and> mask_at \<lparr>mask_height = 2, mask_width = 3, mask_pixel = \<lambda>row col. (255, 0, 0)\<rparr> 0 2
      = Inr (255, 0, 0)
   \<and> (\<exists>lane_counts.
        masking_count_cars \<lparr>mask_height = 2, mask_width = 3, mask_pixel = \<lambda>row col. (255, 0, 0)\<rparr>
          app_lane_colors default_tolerance [(7, - 4)] = Inr lane_counts)"
proof -
  let ?m = "\<lparr>mask_height = 2, mask_width = 3, mask_pixel = \<lambda>row col. (255, 0, 0) :: color\<rparr>"
  have h1: "0 < mask_height ?m" and h2: "0 < mask_width ?m" by simp_all
  have c: "np_clip 7 0 (int (mask_width ?m) - 1) = 2" "np_clip (- 4) 0 (int (mask_height ?m) - 1) = 0"
    by (simp_all add: np_clip_def)
  from color_mask_lookup_in_bounds [OF h1 h2, of 7 "- 4" "[]" app_lane_colors default_tolerance "[(7, - 4)]"]
    h1 c
  show ?thesis by (simp add: clamped_pixel_def)
qed

text \<open>
  C9 as stated fails for the polygon strategy: \<^verbatim>\<open>run\<close> of traffic\_markers.py does not
  clamp. The box \<open>(-50, -50, 10, 10)\<close> gives the centre \<open>(-45, -45)\<close>, which is tested as
  it is and counted nowhere; clamped into a 640 by 480 frame it would be \<open>(0, 0)\<close>, a
  corner of the North polygon.
\<close>

theorem centroid_clamping_counterexample:
  "markers_centers [(- 50, - 50, 10, 10)] = [(- 45, - 45)]
   \<and> map_sum id (apfst counts_list)
       (markers_count_cars pointPolygonTest id (markers_centers [(- 50, - 50, 10, 10)])
         ([square_marker 0 0, square_marker 10 0, square_marker 0 10,
           square_marker 1 1, square_marker 11 1, square_marker 1 11], Some [0, 1, 2, 4, 5, 6]))
     = Inr ([Some 0, Some 0, Some 0, Some 0],
            [(''North'', [(0, 0), (10, 0), (0, 10)]), (''South'', [(1, 1), (11, 1), (1, 11)])])
   \<and> pointPolygonTest [(0, 0), (10, 0), (0, 10)] (np_clip (- 45) 0 639, np_clip (- 45) 0 479) = 0"
  by (simp add: markers_centers_def markers_count_cars_def detect_markers_def example_polygons
      pointPolygonTest_def incr_def zero_counts_def lane_markers_def counts_list_def np_clip_def)

section \<open>Theorems: fixed quadrants and the senders\<close>

lemma quadrant_in_keys: "quadrant x y \<in> {''N'', ''S'', ''E'', ''W''}"
  by (simp add: quadrant_def)

lemma count_boxes_total:
  assumes "{''N'', ''S'', ''E'', ''W''} \<subseteq> dom counts"
  shows "\<exists>counts'. count_boxes counts boxes = Inr counts' \<and> dom counts' = dom counts
     \<and> (\<forall>k. counts' k = map_option (\<lambda>v. v + int (length (filter (\<lambda>b. box_key b = k) boxes)))
                          (counts k))"
  using assms
proof (induction boxes arbitrary: counts)
  case Nil
  then show ?case by (simp add: option.map_ident)
next
  case (Cons b boxes)
  obtain x1 y1 x2 y2 where b: "b = (x1, y1, x2, y2)" by (cases b)
  have "box_key b \<in> {''N'', ''S'', ''E'', ''W''}"
    using quadrant_in_keys by (simp add: box_key_def b)
  then have "box_key b \<in> dom counts" using Cons.prems by blast
  then obtain v where v: "counts (box_key b) = Some v" by auto
  have sub: "{''N'', ''S'', ''E'', ''W''} \<subseteq> dom (counts(box_key b \<mapsto> v + 1))"
    using Cons.prems by auto
  from Cons.IH [OF sub] obtain counts' where
    c': "count_boxes (counts(box_key b \<mapsto> v + 1)) boxes = Inr counts'"
    "dom counts' = dom (counts(box_key b \<mapsto> v + 1))"
    "\<And>k. counts' k = map_option (\<lambda>v. v + int (length (filter (\<lambda>b. box_key b = k) boxes)))
                          ((counts(box_key b \<mapsto> v + 1)) k)"
    by blast
  have "count_boxes counts (b # boxes) = Inr counts'"
    using c'(1) v by (simp add: b box_key_def incr_Some Let_def)
  moreover have "dom counts' = dom counts" using c'(2) v by auto
  moreover have "counts' k = map_option (\<lambda>v. v + int (length (filter (\<lambda>b. box_key b = k) (b # boxes))))
                          (counts k)" for k
    using c'(3) [of k] v by (cases "counts k") auto
  ultimately show ?case by simp
qed

lemma process_frame_total:
  "\<exists>counts. process_frame (Some boxes) = Inr (Some counts)
     \<and> dom counts = {''N'', ''S'', ''E'', ''W''}
     \<and> (\<forall>k \<in> {''N'', ''S'', ''E'', ''W''}.
          counts k = Some (int (length (filter (\<lambda>b. box_key b = k) boxes))))"
proof -
  let ?z = "[''N'' \<mapsto> 0, ''S'' \<mapsto> 0, ''E'' \<mapsto> 0, ''W'' \<mapsto> (0::int)]"
  have d: "dom ?z = {''N'', ''S'', ''E'', ''W''}" by auto
  then have "{''N'', ''S'', ''E'', ''W''} \<subseteq> dom ?z" by simp
  from count_boxes_total [OF this, of boxes] obtain counts' where
    c': "count_boxes ?z boxes = Inr counts'" "dom counts' = dom ?z"
    "\<And>k. counts' k = map_option (\<lambda>v. v + int (length (filter (\<lambda>b. box_key b = k) boxes))) (?z k)"
    by blast
  have "counts' k = Some (int (length (filter (\<lambda>b. box_key b = k) boxes)))"
    if "k \<in> {''N'', ''S'', ''E'', ''W''}" for k
    using c'(3) [of k] that by auto
  then show ?thesis using c'(1,2) d by (simp add: process_frame_def)
qed

lemma send_serial_data_fst: "fst (send_serial_data port lc) = Inr ()"
  by (simp add: send_serial_data_def send_body_def split: sum.splits prod.splits)

lemma send_serial_data_failed:
  assumes "\<not> can_open port \<or> \<not> can_write port"
  shows "\<exists>events e. snd (send_serial_data port lc) = events @ [Print_error e] \<and> written events = []"
proof (cases "build_packet lc")
  case (Inl e)
  then show ?thesis by (simp add: send_serial_data_def send_body_def)
next
  case (Inr p)
  show ?thesis
  proof (cases "can_open port")
    case True
    then have "snd (send_serial_data port lc) = [Opened, Closed] @ [Print_error SerialException]"
      using assms Inr by (simp add: send_serial_data_def send_body_def)
    moreover have "written [Opened, Closed] = []" by simp
    ultimately show ?thesis by blast
  next
    case False
    then have "snd (send_serial_data port lc) = [] @ [Print_error SerialException]"
      using Inr by (simp add: send_serial_data_def send_body_def)
    moreover have "written [] = []" by simp
    ultimately show ?thesis by blast
  qed
qed

lemma send_counts_failed:
  assumes "\<not> can_write sp" and "{''N'', ''S'', ''E'', ''W''} \<subseteq> dom counts"
  shows "send_counts sp counts = (Inl SerialException, [])"
proof -
  from assms(2) obtain n s e w where
    "counts ''N'' = Some n" "counts ''S'' = Some s" "counts ''E'' = Some e" "counts ''W'' = Some w"
    by (auto simp: dom_def)
  then show ?thesis using assms(1) by (simp add: send_counts_def Let_def)
qed

lemma send_counts_written: "length (written (snd (send_counts sp counts))) \<le> 1"
  by (simp add: send_counts_def Let_def split: option.splits)

lemma run_raises:
  assumes "\<not> interrupted it" and "camera_read it = Some boxes" and "\<not> can_write (ser it)"
  shows "run (it # its) = (Raised SerialException, [])"
proof -
  from process_frame_total [of boxes] obtain counts where
    "process_frame (Some boxes) = Inr (Some counts)
     \<and> dom counts = {''N'', ''S'', ''E'', ''W''}
     \<and> (\<forall>k \<in> {''N'', ''S'', ''E'', ''W''}.
          counts k = Some (int (length (filter (\<lambda>b. box_key b = k) boxes))))" ..
  then have c: "process_frame (Some boxes) = Inr (Some counts)"
    "dom counts = {''N'', ''S'', ''E'', ''W''}"
    by simp_all
  have "dom counts \<noteq> {}" unfolding c(2) by simp
  then have ne: "counts \<noteq> Map.empty" by (simp add: dom_eq_empty_conv)
  have sub: "{''N'', ''S'', ''E'', ''W''} \<subseteq> dom counts" unfolding c(2) by simp
  have s: "send_counts (ser it) counts = (Inl SerialException, [])"
    by (rule send_counts_failed [OF assms(3) sub])
  show ?thesis using assms(1,2) c(1) ne s by simp
qed

section \<open>Theorems: the count record\<close>

lemma lane_markers_keys: "set (map fst lane_markers) = {''North'', ''South'', ''East'', ''West''}"
  by (simp add: lane_markers_def)

lemma app_lane_colors_keys: "fst ` set app_lane_colors = {''North'', ''South'', ''East'', ''West''}"
  by (simp add: app_lane_colors_def)

lemma app_lane_colors_nonempty: "[] \<notin> fst ` set app_lane_colors"
  by (simp add: app_lane_colors_def)

lemma complete_markers:
  assumes "detectMarkers img = (corners, Some ids)" and "length corners = length ids"
  shows "\<exists>lane_counts lane_polygons.
          markers_count_cars ppt detectMarkers centers img = Inr (lane_counts, lane_polygons)
        \<and> dom lane_counts = {''North'', ''South'', ''East'', ''West''}
        \<and> (\<forall>lane \<in> {''North'', ''South'', ''East'', ''West''}.
             \<exists>n. lane_counts lane = Some n \<and> 0 \<le> n
               \<and> n = int (length (filter (in_lane ppt lane_polygons lane) centers)))"
proof -
  from markers_count_cars_total [of detectMarkers img corners ids ppt centers, OF assms]
  obtain lc lp where
    r: "markers_count_cars ppt detectMarkers centers img = Inr (lc, lp)"
    "dom lc = set (map fst lane_markers)"
    "\<forall>lane \<in> set (map fst lane_markers).
       lc lane = Some (int (length (filter (in_lane ppt lp lane) centers)))"
    by blast
  have "\<forall>lane \<in> {''North'', ''South'', ''East'', ''West''}.
          \<exists>n. lc lane = Some n \<and> 0 \<le> n \<and> n = int (length (filter (in_lane ppt lp lane) centers))"
    using r(3) unfolding lane_markers_keys by simp
  then show ?thesis using r(1,2) unfolding lane_markers_keys by (intro exI conjI)
qed

lemma complete_masking:
  assumes "0 < mask_height m" and "0 < mask_width m"
  shows "\<exists>lane_counts.
          masking_count_cars m app_lane_colors tolerance centers = Inr lane_counts
        \<and> dom lane_counts = {''North'', ''South'', ''East'', ''West''}
        \<and> (\<forall>lane \<in> {''North'', ''South'', ''East'', ''West''}.
             \<exists>n. lane_counts lane = Some n \<and> 0 \<le> n
               \<and> n = int (length (filter
                     (\<lambda>c. spec_assign (clamped_pixel m c) tolerance app_lane_colors = Some lane)
                     centers)))"
proof -
  from masking_count_cars_total [OF assms app_lane_colors_nonempty, of tolerance centers]
  obtain lc where
    r: "masking_count_cars m app_lane_colors tolerance centers = Inr lc"
    "dom lc = fst ` set app_lane_colors"
    "\<forall>l \<in> fst ` set app_lane_colors. lc l = Some (int (length
       (filter (\<lambda>c. spec_assign (clamped_pixel m c) tolerance app_lane_colors = Some l) centers)))"
    by blast
  have "\<forall>lane \<in> {''North'', ''South'', ''East'', ''West''}.
          \<exists>n. lc lane = Some n \<and> 0 \<le> n \<and> n = int (length (filter
             (\<lambda>c. spec_assign (clamped_pixel m c) tolerance app_lane_colors = Some lane) centers))"
    using r(3) unfolding app_lane_colors_keys by simp
  then show ?thesis using r(1,2) unfolding app_lane_colors_keys by (intro exI conjI)
qed

lemma complete_processor:
  "\<exists>counts.
      process_frame (Some boxes) = Inr (Some counts)
    \<and> dom counts = {''N'', ''S'', ''E'', ''W''}
    \<and> (\<forall>key \<in> {''N'', ''S'', ''E'', ''W''}.
         \<exists>n. counts key = Some n \<and> 0 \<le> n
           \<and> n = int (length (filter (\<lambda>b. box_key b = key) boxes)))"
proof -
  from process_frame_total [of boxes] obtain counts where
    r: "process_frame (Some boxes) = Inr (Some counts)
     \<and> dom counts = {''N'', ''S'', ''E'', ''W''}
     \<and> (\<forall>k \<in> {''N'', ''S'', ''E'', ''W''}.
          counts k = Some (int (length (filter (\<lambda>b. box_key b = k) boxes))))" ..
  note r1 = r [THEN conjunct1] and r2 = r [THEN conjunct2, THEN conjunct1]
    and r3 = r [THEN conjunct2, THEN conjunct2]
  have "\<exists>n. counts key = Some n \<and> 0 \<le> n
           \<and> n = int (length (filter (\<lambda>b. box_key b = key) boxes))"
    if "key \<in> {''N'', ''S'', ''E'', ''W''}" for key
    using bspec [OF r3 that] by simp
  then have r4: "\<forall>key \<in> {''N'', ''S'', ''E'', ''W''}.
         \<exists>n. counts key = Some n \<and> 0 \<le> n
           \<and> n = int (length (filter (\<lambda>b. box_key b = key) boxes))"
    by (rule ballI)
  show ?thesis by (intro exI conjI) (rule r1, rule r2, rule r4)
qed

text \<open>
  C8. Under each strategy the count dictionary produced for a frame has exactly the four
  lanes as keys (\<open>North, South, East, West\<close> in the marker and colour scripts, under the
  names \<open>N, S, E, W\<close> in \<^verbatim>\<open>process_frame\<close>), every count is a non-negative integer, and
  it is the number of centres assigned to the lane, hence 0 for a lane with none. The
  marker strategy produces a dictionary when markers were detected, the colour strategy
  for a non-empty mask.
\<close>

theorem count_record_complete:
  "(detectMarkers img = (corners, Some ids) \<and> length corners = length ids \<longrightarrow>
      (\<exists>lane_counts lane_polygons.
          markers_count_cars ppt detectMarkers centers img = Inr (lane_counts, lane_polygons)
        \<and> dom lane_counts = {''North'', ''South'', ''East'', ''West''}
        \<and> (\<forall>lane \<in> {''North'', ''South'', ''East'', ''West''}.
             \<exists>n. lane_counts lane = Some n \<and> 0 \<le> n
               \<and> n = int (length (filter (in_lane ppt lane_polygons lane) centers)))))
   \<and> (0 < mask_height m \<and> 0 < mask_width m \<longrightarrow>
      (\<exists>lane_counts.
          masking_count_cars m app_lane_colors tolerance centers = Inr lane_counts
        \<and> dom lane_counts = {''North'', ''South'', ''East'', ''West''}
        \<and> (\<forall>lane \<in> {''North'', ''South'', ''East'', ''West''}.
             \<exists>n. lane_counts lane = Some n \<and> 0 \<le> n
               \<and> n = int (length (filter
                     (\<lambda>c. spec_assign (clamped_pixel m c) tolerance app_lane_colors = Some lane)
                     centers)))))
   \<and> (\<exists>counts.
      process_frame (Some boxes) = Inr (Some counts)
    \<and> dom counts = {''N'', ''S'', ''E'', ''W''}
    \<and> (\<forall>key \<in> {''N'', ''S'', ''E'', ''W''}.
         \<exists>n. counts key = Some n \<and> 0 \<le> n
           \<and> n = int (length (filter (\<lambda>b. box_key b = key) boxes))))"
proof (intro conjI impI)
  assume "detectMarkers img = (corners, Some ids) \<and> length corners = length ids"
  then have "detectMarkers img = (corners, Some ids)" "length corners = length ids" by simp_all
  then show "\<exists>lane_counts lane_polygons.
          markers_count_cars ppt detectMarkers centers img = Inr (lane_counts, lane_polygons)
        \<and> dom lane_counts = {''North'', ''South'', ''East'', ''West''}
        \<and> (\<forall>lane \<in> {''North'', ''South'', ''East'', ''West''}.
             \<exists>n. lane_counts lane = Some n \<and> 0 \<le> n
               \<and> n = int (length (filter (in_lane ppt lane_polygons lane) centers)))"
    by (rule complete_markers)
next
  assume "0 < mask_height m \<and> 0 < mask_width m"
  then have "0 < mask_height m" "0 < mask_width m" by simp_all
  then show "\<exists>lane_counts.
          masking_count_cars m app_lane_colors tolerance centers = Inr lane_counts
        \<and> dom lane_counts = {''North'', ''South'', ''East'', ''West''}
        \<and> (\<forall>lane \<in> {''North'', ''South'', ''East'', ''West''}.
             \<exists>n. lane_counts lane = Some n \<and> 0 \<le> n
               \<and> n = int (length (filter
                     (\<lambda>c. spec_assign (clamped_pixel m c) tolerance app_lane_colors = Some lane)
                     centers)))"
    by (rule complete_masking)
next
  show "\<exists>counts.
      process_frame (Some boxes) = Inr (Some counts)
    \<and> dom counts = {''N'', ''S'', ''E'', ''W''}
    \<and> (\<forall>key \<in> {''N'', ''S'', ''E'', ''W''}.
         \<exists>n. counts key = Some n \<and> 0 \<le> n
           \<and> n = int (length (filter (\<lambda>b. box_key b = key) boxes)))"
    by (rule complete_processor)
qed


theorem count_record_complete_witness:
  "length [square_marker 0 0, square_marker 10 0, square_marker 0 10,
        square_marker 1 1, square_marker 11 1, square_marker 1 11]
     = length ([0, 1, 2, 4, 5, 6] :: int list)
   \<and> 0 < mask_height \<lparr>mask_height = 2, mask_width = 3, mask_pixel = \<lambda>row col. (255, 0, 0)\<rparr>
   \<and> 0 < mask_width \<lparr>mask_height = 2, mask_width = 3, mask_pixel = \<lambda>row col. (255, 0, 0)\<rparr>
   \<and> (\<exists>lane_counts lane_polygons.
          markers_count_cars pointPolygonTest id [(3, 3)]
            ([square_marker 0 0, square_marker 10 0, square_marker 0 10,
        square_marker 1 1, square_marker 11 1, square_marker 1 11], Some [0, 1, 2, 4, 5, 6])
            = Inr (lane_counts, lane_polygons)
        \<and> dom lane_counts = {''North'', ''South'', ''East'', ''West''}
        \<and> (\<forall>lane \<in> {''North'', ''South'', ''East'', ''West''}.
             \<exists>n. lane_counts lane = Some n \<and> 0 \<le> n
               \<and> n = int (length (filter (in_lane pointPolygonTest lane_polygons lane) [(3, 3)]))))
   \<and> (\<exists>lane_counts.
          masking_count_cars \<lparr>mask_height = 2, mask_width = 3, mask_pixel = \<lambda>row col. (255, 0, 0)\<rparr>
            app_lane_colors default_tolerance [(3, 3)] = Inr lane_counts
        \<and> dom lane_counts = {''North'', ''South'', ''East'', ''West''}
        \<and> (\<forall>lane \<in> {''North'', ''South'', ''East'', ''West''}.
             \<exists>n. lane_counts lane = Some n \<and> 0 \<le> n
               \<and> n = int (length (filter
                     (\<lambda>c. spec_assign (clamped_pixel \<lparr>mask_height = 2, mask_width = 3, mask_pixel = \<lambda>row col. (255, 0, 0)\<rparr> c)
                            default_tolerance app_lane_colors = Some lane)
                     [(3, 3)]))))
   \<and> (\<exists>counts.
      process_frame (Some [(100, 100, 200, 200)]) = Inr (Some counts)
    \<and> dom counts = {''N'', ''S'', ''E'', ''W''}
    \<and> (\<forall>key \<in> {''N'', ''S'', ''E'', ''W''}.
         \<exists>n. counts key = Some n \<and> 0 \<le> n
           \<and> n = int (length (filter (\<lambda>b. box_key b = key) [(100, 100, 200, 200)]))))"
proof -
  have h1: "id ([square_marker 0 0, square_marker 10 0, square_marker 0 10,
        square_marker 1 1, square_marker 11 1, square_marker 1 11], Some [0, 1, 2, 4, 5, 6])
     = ([square_marker 0 0, square_marker 10 0, square_marker 0 10,
        square_marker 1 1, square_marker 11 1, square_marker 1 11], Some [0, 1, 2, 4, 5, 6] :: int list option)"
    by simp
  have h2: "length [square_marker 0 0, square_marker 10 0, square_marker 0 10,
        square_marker 1 1, square_marker 11 1, square_marker 1 11]
     = length ([0, 1, 2, 4, 5, 6] :: int list)"
    by simp
  have h3: "0 < mask_height \<lparr>mask_height = 2, mask_width = 3, mask_pixel = \<lambda>row col. (255, 0, 0)\<rparr>"
    and h4: "0 < mask_width \<lparr>mask_height = 2, mask_width = 3, mask_pixel = \<lambda>row col. (255, 0, 0)\<rparr>"
    by simp_all
  note t = count_record_complete
    [where detectMarkers = id
       and img = "([square_marker 0 0, square_marker 10 0, square_marker 0 10,
        square_marker 1 1, square_marker 11 1, square_marker 1 11], Some [0, 1, 2, 4, 5, 6])"
       and corners = "[square_marker 0 0, square_marker 10 0, square_marker 0 10,
        square_marker 1 1, square_marker 11 1, square_marker 1 11]"
       and ids = "[0, 1, 2, 4, 5, 6]" and ppt = pointPolygonTest and centers = "[(3, 3)]"
       and m = "\<lparr>mask_height = 2, mask_width = 3, mask_pixel = \<lambda>row col. (255, 0, 0)\<rparr>"
       and tolerance = default_tolerance and boxes = "[(100, 100, 200, 200)]"]
  note t1 = t [THEN conjunct1, THEN mp, OF conjI [OF h1 h2]]
  note t2 = t [THEN conjunct2, THEN conjunct1, THEN mp, OF conjI [OF h3 h4]]
  note t3 = t [THEN conjunct2, THEN conjunct2]
  show ?thesis
    by (intro conjI) (rule h2, rule h3, rule h4, rule t1, rule t2, rule t3)
qed

section \<open>Theorems: quadrants, regions and failure handling\<close>

lemma py_int_of_int: "py_int (of_int k) = k"
  by (simp add: py_int_def)

lemma single_box_count:
  "\<exists>counts. process_frame (Some [(x1, y1, x2, y2)]) = Inr (Some counts)
     \<and> counts (quadrant ((x1 + x2) / 2) ((y1 + y2) / 2)) = Some 1"
proof -
  let ?k = "quadrant ((x1 + x2) / 2) ((y1 + y2) / 2)"
  from process_frame_total [of "[(x1, y1, x2, y2)]"] obtain counts where
    r: "process_frame (Some [(x1, y1, x2, y2)]) = Inr (Some counts)
     \<and> dom counts = {''N'', ''S'', ''E'', ''W''}
     \<and> (\<forall>k \<in> {''N'', ''S'', ''E'', ''W''}.
          counts k = Some (int (length (filter (\<lambda>b. box_key b = k) [(x1, y1, x2, y2)]))))" ..
  note r1 = r [THEN conjunct1] and r3 = r [THEN conjunct2, THEN conjunct2]
  have "counts ?k = Some (int (length (filter (\<lambda>b. box_key b = ?k) [(x1, y1, x2, y2)])))"
    by (rule bspec [OF r3 quadrant_in_keys])
  then have r4: "counts ?k = Some 1" by (simp add: box_key_def)
  show ?thesis by (intro exI conjI) (rule r1, rule r4)
qed

lemma west_corner:
  assumes "0 < width" "0 < height" "cls \<in> {2, 3, 5, 7}"
  shows "map_sum id counts_list
           (count_cars_in_regions width height
              [(of_int (width div 4), of_int (height div 4),
                of_int (width div 4), of_int (height div 4), conf, of_int cls)])
         = Inr [Some 0, Some 0, Some 0, Some 1]"
proof -
  have a: "\<not> width - width div 4 \<le> width div 4" "\<not> height - height div 4 \<le> height div 4"
    "0 \<le> width div 4" "0 \<le> height div 4"
    using assms(1,2) by simp_all
  have c: "cls = 2 \<or> cls = 3 \<or> cls = 5 \<or> cls = 7" using assms(3) by simp
  show ?thesis
    using a c
    by (simp add: count_cars_in_regions_def regions_def py_int_of_int incr_def counts_list_def)
qed

lemma east_corner:
  assumes "0 < a" "0 < b" "cls \<in> {2, 3, 5, 7}"
  shows "map_sum id counts_list
           (count_cars_in_regions (4 * a) (4 * b)
              [(of_int (3 * a), of_int (3 * b), of_int (3 * a), of_int (3 * b), conf, of_int cls)])
         = Inr [Some 0, Some 0, Some 1, Some 0]"
proof -
  have c: "cls = 2 \<or> cls = 3 \<or> cls = 5 \<or> cls = 7" using assms(3) by simp
  have p: "py_int (3 * real_of_int k) = 3 * k" for k
    using py_int_of_int [of "3 * k"] by simp
  show ?thesis
    using assms(1,2) c
    by (simp add: count_cars_in_regions_def regions_def py_int_of_int p incr_def
        counts_list_def Let_def)
qed

text \<open>
  C3, as the code has it. \<^verbatim>\<open>process_frame\<close> splits the plane by the fixed lines
  \<open>x = 320\<close> and \<open>y = 240\<close>, the midlines of a 640 by 480 frame, whatever the size of
  the frame: W left and above, N left and below, E right and above, S right and below,
  and a box increments the count of the quadrant of its centre. The centre
  \<open>(W/4, H/4)\<close> is assigned W exactly when \<open>W < 1280\<close> and \<open>H < 960\<close>, and
  \<open>(3W/4, 3H/4)\<close> is assigned S exactly when \<open>3W \<ge> 1280\<close> and \<open>H \<ge> 320\<close>; both hold
  for a 640 by 480 frame. \<^verbatim>\<open>count_cars_in_regions\<close> of traffic.py uses four corner
  rectangles of a quarter of the width and height instead: a vehicle centred at
  \<open>(W div 4, H div 4)\<close> is counted for West only, and one centred at \<open>(3W/4, 3H/4)\<close>,
  for \<open>W\<close> and \<open>H\<close> positive multiples of 4, for East only.
\<close>

theorem fixed_quadrant_assignment:
  "(quadrant x y = ''W'' \<longleftrightarrow> x < 320 \<and> y < 240)
   \<and> (quadrant x y = ''N'' \<longleftrightarrow> x < 320 \<and> 240 \<le> y)
   \<and> (quadrant x y = ''E'' \<longleftrightarrow> 320 \<le> x \<and> y < 240)
   \<and> (quadrant x y = ''S'' \<longleftrightarrow> 320 \<le> x \<and> 240 \<le> y)
   \<and> (quadrant (W / 4) (H / 4) = ''W'' \<longleftrightarrow> W < 1280 \<and> H < 960)
   \<and> (quadrant (3 * W / 4) (3 * H / 4) = ''S'' \<longleftrightarrow> 1280 \<le> 3 * W \<and> 320 \<le> H)
   \<and> quadrant (640 / 4) (480 / 4) = ''W''
   \<and> quadrant (3 * 640 / 4) (3 * 480 / 4) = ''S''
   \<and> (\<exists>counts. process_frame (Some [(x1, y1, x2, y2)]) = Inr (Some counts)
         \<and> counts (quadrant ((x1 + x2) / 2) ((y1 + y2) / 2)) = Some 1)
   \<and> (0 < width \<and> 0 < height \<and> cls \<in> {2, 3, 5, 7} \<longrightarrow>
        map_sum id counts_list
           (count_cars_in_regions width height
              [(of_int (width div 4), of_int (height div 4),
                of_int (width div 4), of_int (height div 4), conf, of_int cls)])
         = Inr [Some 0, Some 0, Some 0, Some 1])
   \<and> (0 < a \<and> 0 < b \<and> cls \<in> {2, 3, 5, 7} \<longrightarrow>
        map_sum id counts_list
           (count_cars_in_regions (4 * a) (4 * b)
              [(of_int (3 * a), of_int (3 * b), of_int (3 * a), of_int (3 * b), conf, of_int cls)])
         = Inr [Some 0, Some 0, Some 1, Some 0])"
proof (intro conjI impI)
  show "quadrant x y = ''W'' \<longleftrightarrow> x < 320 \<and> y < 240"
    "quadrant x y = ''N'' \<longleftrightarrow> x < 320 \<and> 240 \<le> y"
    "quadrant x y = ''E'' \<longleftrightarrow> 320 \<le> x \<and> y < 240"
    "quadrant x y = ''S'' \<longleftrightarrow> 320 \<le> x \<and> 240 \<le> y"
    by (simp_all add: quadrant_def not_less)
  show "quadrant (W / 4) (H / 4) = ''W'' \<longleftrightarrow> W < 1280 \<and> H < 960"
    "quadrant (3 * W / 4) (3 * H / 4) = ''S'' \<longleftrightarrow> 1280 \<le> 3 * W \<and> 320 \<le> H"
    by (simp_all add: quadrant_def not_less)
  show "quadrant (640 / 4) (480 / 4) = ''W''" "quadrant (3 * 640 / 4) (3 * 480 / 4) = ''S''"
    by (simp_all add: quadrant_def)
  show "\<exists>counts. process_frame (Some [(x1, y1, x2, y2)]) = Inr (Some counts)
         \<and> counts (quadrant ((x1 + x2) / 2) ((y1 + y2) / 2)) = Some 1"
    by (rule single_box_count)
next
  assume "0 < width \<and> 0 < height \<and> cls \<in> {2, 3, 5, 7}"
  then have "0 < width" "0 < height" "cls \<in> {2, 3, 5, 7}" by simp_all
  then show "map_sum id counts_list
           (count_cars_in_regions width height
              [(of_int (width div 4), of_int (height div 4),
                of_int (width div 4), of_int (height div 4), conf, of_int cls)])
         = Inr [Some 0, Some 0, Some 0, Some 1]"
    by (rule west_corner)
next
  assume "0 < a \<and> 0 < b \<and> cls \<in> {2, 3, 5, 7}"
  then have "0 < a" "0 < b" "cls \<in> {2, 3, 5, 7}" by simp_all
  then show "map_sum id counts_list
           (count_cars_in_regions (4 * a) (4 * b)
              [(of_int (3 * a), of_int (3 * b), of_int (3 * a), of_int (3 * b), conf, of_int cls)])
         = Inr [Some 0, Some 0, Some 1, Some 0]"
    by (rule east_corner)
qed

text \<open>
  C3 as stated fails: for a 1920 by 1080 frame the centre \<open>(W/4, H/4) = (480, 270)\<close> is
  assigned S by \<^verbatim>\<open>process_frame\<close>, and a box centred there raises the count of S; in
  traffic.py a car centred at \<open>(3W/4, 3H/4)\<close> of a 640 by 480 frame is counted for East.
\<close>

theorem static_quadrant_counterexample:
  "quadrant (1920 / 4) (1080 / 4) = ''S''
   \<and> map_sum id (map_option counts_list_NSEW) (process_frame (Some [(470, 260, 490, 280)]))
       = Inr (Some [Some 0, Some 1, Some 0, Some 0])
   \<and> map_sum id counts_list (count_cars_in_regions 640 480 [(470, 350, 490, 370, 9 / 10, 2)])
       = Inr [Some 0, Some 0, Some 1, Some 0]"
  by (simp add: quadrant_def process_frame_def incr_def counts_list_NSEW_def
      count_cars_in_regions_def regions_def py_int_def counts_list_def)


theorem fixed_quadrant_assignment_witness:
  "(0 :: int) < 640 \<and> (0 :: int) < 480 \<and> (2 :: int) \<in> {2, 3, 5, 7}
   \<and> (0 :: int) < 160 \<and> (0 :: int) < 120
   \<and> quadrant (640 / 4) (480 / 4) = ''W''
   \<and> quadrant (3 * 640 / 4) (3 * 480 / 4) = ''S''
   \<and> map_sum id counts_list
        (count_cars_in_regions 640 480 [(160, 120, 160, 120, 9 / 10, 2)])
       = Inr [Some 0, Some 0, Some 0, Some 1]
   \<and> map_sum id counts_list
        (count_cars_in_regions (4 * 160) (4 * 120) [(480, 360, 480, 360, 9 / 10, 2)])
       = Inr [Some 0, Some 0, Some 1, Some 0]"
  using fixed_quadrant_assignment
    [where x = 160 and y = 120 and W = 640 and H = 480
       and ?x1.0 = 150 and ?y1.0 = 110 and ?x2.0 = 170 and ?y2.0 = 130
       and width = 640 and height = 480 and cls = 2 and conf = "9 / 10" and a = 160 and b = 120]
  by simp

lemma send_serial_data_written: "length (written (snd (send_serial_data port lc))) \<le> 1"
  by (simp add: written_send_cases split: sum.splits)

text \<open>
  C2, as the code has it. \<^verbatim>\<open>send_serial_data\<close> of traffic\_masking.py never raises: when
  the port does not open or the write fails it prints the error and returns as after a
  successful send, having written nothing; it writes at most once per call. In
  traffic\_processor.py a failed write makes \<^verbatim>\<open>send_counts\<close> raise to its caller, it
  writes at most once per call, and \<^verbatim>\<open>run\<close>, which catches \<^verbatim>\<open>KeyboardInterrupt\<close> only,
  ends with that exception.
\<close>

theorem serial_failure_handling:
  "fst (send_serial_data port lane_counts) = Inr ()
   \<and> length (written (snd (send_serial_data port lane_counts))) \<le> 1
   \<and> (\<not> can_open port \<or> \<not> can_write port \<longrightarrow>
        (\<exists>events e. snd (send_serial_data port lane_counts) = events @ [Print_error e]
           \<and> written events = []))
   \<and> (\<not> can_write sp \<and> {''N'', ''S'', ''E'', ''W''} \<subseteq> dom counts \<longrightarrow>
        send_counts sp counts = (Inl SerialException, []))
   \<and> length (written (snd (send_counts sp counts))) \<le> 1
   \<and> (\<not> interrupted it \<and> camera_read it = Some boxes \<and> \<not> can_write (ser it) \<longrightarrow>
        run (it # its) = (Raised SerialException, []))"
proof (intro conjI impI)
  show "fst (send_serial_data port lane_counts) = Inr ()"
    by (rule send_serial_data_fst)
  show "length (written (snd (send_serial_data port lane_counts))) \<le> 1"
    by (rule send_serial_data_written)
  show "length (written (snd (send_counts sp counts))) \<le> 1"
    by (rule send_counts_written)
next
  assume "\<not> can_open port \<or> \<not> can_write port"
  then show "\<exists>events e. snd (send_serial_data port lane_counts) = events @ [Print_error e]
           \<and> written events = []"
    by (rule send_serial_data_failed)
next
  assume "\<not> can_write sp \<and> {''N'', ''S'', ''E'', ''W''} \<subseteq> dom counts"
  then have "\<not> can_write sp" "{''N'', ''S'', ''E'', ''W''} \<subseteq> dom counts" by simp_all
  then show "send_counts sp counts = (Inl SerialException, [])"
    by (rule send_counts_failed)
next
  assume "\<not> interrupted it \<and> camera_read it = Some boxes \<and> \<not> can_write (ser it)"
  then have "\<not> interrupted it" "camera_read it = Some boxes" "\<not> can_write (ser it)"
    by simp_all
  then show "run (it # its) = (Raised SerialException, [])"
    by (rule run_raises)
qed

theorem serial_failure_handling_witness:
  "\<not> can_open \<lparr>can_open = False, can_write = True\<rparr>
   \<and> send_serial_data \<lparr>can_open = False, can_write = True\<rparr>
        [''North'' \<mapsto> 1, ''South'' \<mapsto> 2, ''East'' \<mapsto> 3, ''West'' \<mapsto> 4]
       = (Inr (), [Print_error SerialException])
   \<and> \<not> can_write \<lparr>can_open = True, can_write = False\<rparr>
   \<and> send_counts \<lparr>can_open = True, can_write = False\<rparr>
        [''N'' \<mapsto> 0, ''S'' \<mapsto> 0, ''E'' \<mapsto> 0, ''W'' \<mapsto> 0]
       = (Inl SerialException, [])
   \<and> run [\<lparr>interrupted = False, camera_read = Some [], ser = \<lparr>can_open = True, can_write = False\<rparr>\<rparr>]
       = (Raised SerialException, [])"
proof -
  have h1: "\<not> can_open \<lparr>can_open = False, can_write = True\<rparr> \<or> \<not> can_write \<lparr>can_open = False, can_write = True\<rparr>"
    by simp
  have h2: "\<not> can_write \<lparr>can_open = True, can_write = False\<rparr>
      \<and> {''N'', ''S'', ''E'', ''W''} \<subseteq> dom [''N'' \<mapsto> 0, ''S'' \<mapsto> 0, ''E'' \<mapsto> 0, ''W'' \<mapsto> 0]"
    by simp
  have h3: "\<not> interrupted \<lparr>interrupted = False, camera_read = Some [], ser = \<lparr>can_open = True, can_write = False\<rparr>\<rparr>
      \<and> camera_read \<lparr>interrupted = False, camera_read = Some [], ser = \<lparr>can_open = True, can_write = False\<rparr>\<rparr> = Some []
      \<and> \<not> can_write (ser \<lparr>interrupted = False, camera_read = Some [], ser = \<lparr>can_open = True, can_write = False\<rparr>\<rparr>)"
    by simp
  note t = serial_failure_handling
    [where port = "\<lparr>can_open = False, can_write = True\<rparr>"
       and lane_counts = "[''North'' \<mapsto> 1, ''South'' \<mapsto> 2, ''East'' \<mapsto> 3, ''West'' \<mapsto> 4]"
       and sp = "\<lparr>can_open = True, can_write = False\<rparr>"
       and counts = "[''N'' \<mapsto> 0, ''S'' \<mapsto> 0, ''E'' \<mapsto> 0, ''W'' \<mapsto> 0]"
       and it = "\<lparr>interrupted = False, camera_read = Some [], ser = \<lparr>can_open = True, can_write = False\<rparr>\<rparr>"
       and boxes = "[]" and its = "[]"]
  note t4 = t [THEN conjunct2, THEN conjunct2, THEN conjunct2, THEN conjunct1, THEN mp, OF h2]
  note t6 = t [THEN conjunct2, THEN conjunct2, THEN conjunct2, THEN conjunct2, THEN conjunct2,
      THEN mp, OF h3]
  have s: "send_serial_data \<lparr>can_open = False, can_write = True\<rparr>
        [''North'' \<mapsto> 1, ''South'' \<mapsto> 2, ''East'' \<mapsto> 3, ''West'' \<mapsto> 4]
       = (Inr (), [Print_error SerialException])"
    by (simp add: send_serial_data_def send_body_def build_packet_def struct_pack_4H_def
        pack_H_def get_or_zero_def)
  show ?thesis using s t4 t6 by simp
qed

text \<open>
  C2 as stated fails: with a port that does not open, \<^verbatim>\<open>send_serial_data\<close> returns the
  same result as with a working port (the failure is only printed); and in
  traffic\_processor.py one failed write ends the frame loop with the exception, before
  the next iteration.
\<close>

theorem serial_failure_reporting_counterexample:
  "send_serial_data \<lparr>can_open = False, can_write = True\<rparr>
      [''North'' \<mapsto> 1, ''South'' \<mapsto> 2, ''East'' \<mapsto> 3, ''West'' \<mapsto> 4]
     = (Inr (), [Print_error SerialException])
   \<and> fst (send_serial_data \<lparr>can_open = False, can_write = True\<rparr>
        [''North'' \<mapsto> 1, ''South'' \<mapsto> 2, ''East'' \<mapsto> 3, ''West'' \<mapsto> 4])
     = fst (send_serial_data \<lparr>can_open = True, can_write = True\<rparr>
        [''North'' \<mapsto> 1, ''South'' \<mapsto> 2, ''East'' \<mapsto> 3, ''West'' \<mapsto> 4])
   \<and> fst (run [\<lparr>interrupted = False, camera_read = Some [], ser = \<lparr>can_open = True, can_write = False\<rparr>\<rparr>,
               \<lparr>interrupted = False, camera_read = Some [], ser = \<lparr>can_open = True, can_write = True\<rparr>\<rparr>])
     = Raised SerialException"
  by (simp add: send_serial_data_def send_body_def build_packet_def struct_pack_4H_def
      pack_H_def get_or_zero_def process_frame_def send_counts_def)

text \<open>The text line for the counts (0, 0, 0, 0) is \<^verbatim>\<open>0,0,0,0\<close> and a newline.\<close>

lemma text_line_example:
  "send_counts \<lparr>can_open = True, can_write = True\<rparr>
     [''N'' \<mapsto> 0, ''S'' \<mapsto> 0, ''E'' \<mapsto> 0, ''W'' \<mapsto> 0]
   = (Inr (), [Wrote [0x30, 0x2C, 0x30, 0x2C, 0x30, 0x2C, 0x30, 0x0A]])"
  by (simp add: send_counts_def str_int_def str_nat.simps digit_char_def encode_utf8_def
      char_of_def bit_Suc_0_iff)

end
